theory Spec2Isabelle
  imports Complex_Main "HOL-Library.AList" "HOL-Library.Sublist"
begin

section \<open>JavaScript values\<close>

text \<open>
  JavaScript strings are modelled as \<open>string\<close>; one \<open>char\<close> stands for one code unit of
  the JavaScript string, so \<open>length\<close>, \<open>take\<close> and \<open>@\<close> are \<open>.length\<close>,
  \<open>.substring(0, n)\<close> and string concatenation.
\<close>

datatype js_number = NaN | PosInfinity | NegInfinity | Finite rat

datatype js_value =
    JUndefined
  | JNull
  | JBool bool
  | JNum js_number
  | JStr string

text \<open>Truthiness, as \<open>if (v)\<close>, \<open>!v\<close>, \<open>v && w\<close> and \<open>v || w\<close> test it.\<close>

fun truthy :: "js_value \<Rightarrow> bool" where
  "truthy JUndefined = False"
| "truthy JNull = False"
| "truthy (JBool b) = b"
| "truthy (JNum n) = (n \<noteq> NaN \<and> n \<noteq> Finite 0)"
| "truthy (JStr s) = (s \<noteq> [])"

fun typeof :: "js_value \<Rightarrow> string" where
  "typeof JUndefined = ''undefined''"
| "typeof JNull = ''object''"
| "typeof (JBool b) = ''boolean''"
| "typeof (JNum n) = ''number''"
| "typeof (JStr s) = ''string''"

text \<open>
  A lower-casing of the ASCII letters that keeps every other character. It stands for
  \<open>String.prototype.toLowerCase\<close> in the example inputs, whose strings are ASCII; the
  model itself takes \<open>toLowerCase\<close> from the runtime (record \<open>host\<close> below).
\<close>

definition lower_char :: "char \<Rightarrow> char" where
  "lower_char c =
     (case map_of (zip ''ABCDEFGHIJKLMNOPQRSTUVWXYZ'' ''abcdefghijklmnopqrstuvwxyz'') c of
        None \<Rightarrow> c
      | Some d \<Rightarrow> d)"

definition ascii_toLowerCase :: "string \<Rightarrow> string" where
  "ascii_toLowerCase s = map lower_char s"

text \<open>\<open>Array.prototype.join\<close> on an array of strings.\<close>

fun join :: "string \<Rightarrow> string list \<Rightarrow> string" where
  "join sep [] = []"
| "join sep [x] = x"
| "join sep (x # y # ys) = x @ sep @ join sep (y # ys)"

text \<open>
  A plain object whose property values are primitive: the properties in insertion order.
  Reading a missing property gives \<open>undefined\<close>; assigning keeps the position of an existing
  property and appends a new one.
\<close>

type_synonym js_object = "(string \<times> js_value) list"

definition get_prop :: "js_object \<Rightarrow> string \<Rightarrow> js_value" where
  "get_prop obj key = (case map_of obj key of None \<Rightarrow> JUndefined | Some v \<Rightarrow> v)"

definition set_prop :: "js_object \<Rightarrow> string \<Rightarrow> js_value \<Rightarrow> js_object" where
  "set_prop obj key v = AList.update key v obj"

section \<open>The logger\<close>

datatype log_level = LDebug | LInfo | LWarn | LError

type_synonym log = "(log_level \<times> string) list"

section \<open>lib/format-template.js\<close>

text \<open>
  \<open>result.replace(new RegExp('\\{\\{' + key + '\\}\\}', 'g'), value || '')\<close>.
  For a key made of letters, digits and underscores the pattern matches exactly the text
  \<open>{{key}}\<close>. The global replace scans from the left; at a match it emits the expanded
  replacement and goes on after the match, otherwise it copies one character.
  In the replacement text \<open>$$\<close> stands for \<open>$\<close>, \<open>$&\<close> for the matched text, \<open>$`\<close> for
  the text before the match and \<open>$'\<close> for the text after it; the pattern has no capture
  group, so every other \<open>$\<close> is literal.
\<close>

fun expand_replacement :: "string \<Rightarrow> string \<Rightarrow> string \<Rightarrow> string \<Rightarrow> string" where
  "expand_replacement matched before after [] = []"
| "expand_replacement matched before after [c] = [c]"
| "expand_replacement matched before after (c # d # r) =
     (if c = CHR ''$'' then
        (if d = CHR ''$'' then CHR ''$'' # expand_replacement matched before after r
         else if d = CHR ''&'' then matched @ expand_replacement matched before after r
         else if d = CHR 0x60 then before @ expand_replacement matched before after r
         else if d = CHR 0x27 then after @ expand_replacement matched before after r
         else c # expand_replacement matched before after (d # r))
      else c # expand_replacement matched before after (d # r))"

function replace_from :: "string \<Rightarrow> string \<Rightarrow> string \<Rightarrow> string \<Rightarrow> string" where
  "replace_from pat rep before s =
     (if pat = [] \<or> s = [] then s
      else if prefix pat s
        then expand_replacement pat before (drop (length pat) s) rep
             @ replace_from pat rep (before @ pat) (drop (length pat) s)
      else hd s # replace_from pat rep (before @ [hd s]) (tl s))"
  by pat_completeness auto
termination
  by (relation "measure (\<lambda>(pat, rep, before, s). length s)") (auto simp: neq_Nil_conv)

definition placeholder :: "string \<Rightarrow> string" where
  "placeholder key = ''{{'' @ key @ ''}}''"

definition replace_placeholder :: "string \<Rightarrow> string \<Rightarrow> string \<Rightarrow> string" where
  "replace_placeholder key rep s = replace_from (placeholder key) rep [] s"

text \<open>
  The variables are the entries of an object, in its property order. A value is a string, or
  \<open>None\<close> for \<open>undefined\<close> and \<open>null\<close>; \<open>value || ''\<close> turns a missing value into the
  empty string (and leaves the empty string as it is).
\<close>

type_synonym variables = "(string \<times> string option) list"

definition value_or_empty :: "string option \<Rightarrow> string" where
  "value_or_empty v = (case v of None \<Rightarrow> [] | Some s \<Rightarrow> s)"

fun process_loop :: "string \<Rightarrow> variables \<Rightarrow> string" where
  "process_loop result [] = result"
| "process_loop result ((key, v) # rest) =
     process_loop (replace_placeholder key (value_or_empty v) result) rest"

text \<open>The template is \<open>None\<close> when the caller passes \<open>undefined\<close> or something not a string.\<close>

definition process :: "string option \<Rightarrow> variables \<Rightarrow> string" where
  "process template vars =
     (case template of
        None \<Rightarrow> []
      | Some t \<Rightarrow> if t = [] then [] else process_loop t vars)"

declare replace_from.simps [simp del]

text \<open>
  What the JavaScript runtime supplies: the clock behind \<open>new Date()\<close>, the three
  renderings of a \<open>Date\<close> that \<open>getVariables\<close> asks for (with its fixed \<open>en-US\<close>
  options), \<open>parseFloat\<close>, \<open>String.prototype.toLowerCase\<close>, and the message of the
  \<open>TypeError\<close> that reading a property of \<open>undefined\<close> or \<open>null\<close> raises. An instant
  is a valid \<open>Date\<close>, in milliseconds.
\<close>

type_synonym instant = int

record host =
  now :: instant
  toLocaleString :: "instant \<Rightarrow> string"
  toISOString :: "instant \<Rightarrow> string"
  toLocaleTimeString :: "instant \<Rightarrow> string"
  parseFloat :: "string \<Rightarrow> js_number"
  toLowerCase :: "string \<Rightarrow> string"
  typeErrorMessage :: string

text \<open>The message data built by the host for one chat message.\<close>

record messageData =
  md_type :: string
  md_network :: string
  md_channel :: string
  md_nick :: string
  md_message :: string
  md_timestamp :: "instant option"
  md_highlight :: bool

definition startsWith_hash :: "string \<Rightarrow> bool" where
  "startsWith_hash s = prefix ''#'' s"

definition getVariables :: "host \<Rightarrow> messageData \<Rightarrow> variables" where
  "getVariables h md =
     (let timestamp = (case md_timestamp md of None \<Rightarrow> now h | Some t \<Rightarrow> t);
          dateFormatted = toLocaleString h timestamp;
          isPrivateMessage = (md_channel md = [] \<or> \<not> startsWith_hash (md_channel md));
          channelDisplay = (if isPrivateMessage then ''PM'' else md_channel md)
      in [(''date'', Some dateFormatted),
          (''timestamp'', Some (toISOString h timestamp)),
          (''time'', Some (toLocaleTimeString h timestamp)),
          (''nick'', Some (md_nick md)),
          (''user'', Some (md_nick md)),
          (''message'', Some (md_message md)),
          (''text'', Some (md_message md)),
          (''channel'', Some channelDisplay),
          (''network'', Some (md_network md)),
          (''server'', Some (md_network md)),
          (''type'', Some (if md_type md = [] then ''message'' else md_type md))])"

record formatConfig =
  title :: "string option"
  titleWithChannel :: "string option"
  message :: "string option"
  actionMessage :: "string option"

definition getDefaults :: formatConfig where
  "getDefaults =
     \<lparr>title = Some ''{{network}}'',
      titleWithChannel = Some ''{{network}} - {{channel}}'',
      message = Some ''<{{nick}}> {{message}}'',
      actionMessage = Some ''* {{nick}} {{message}}''\<rparr>"

section \<open>lib/notification-manager.js\<close>

record channelFilter =
  whitelist :: "string list"
  blacklist :: "string list"

record filterConfig =
  onlyWhenAway :: bool
  highlights :: bool
  channels :: "channelFilter option"

record notificationConfig =
  enabled :: bool
  services :: "(string \<times> js_object) list option"
  filters :: filterConfig
  format :: "formatConfig option"

text \<open>The host's client object: \<open>client.user\<close> may be missing; \<open>user.away\<close> is tested for truthiness.\<close>

record client_user =
  away :: js_value

record client =
  user :: "client_user option"

record notification =
  n_title :: string
  n_message :: string
  n_timestamp :: "instant option"

text \<open>
  A settled promise: fulfilled with a value, or rejected with a reason. \<open>Reason msg\<close> is a
  reason other than \<open>undefined\<close> and \<open>null\<close>, \<open>msg\<close> being the text that the code's
  \<open>${err.message}\<close> gives for it (the message of an \<open>Error\<close>; the text \<open>undefined\<close> for
  a value without a message). \<open>Nullish\<close> is the reason \<open>undefined\<close> or \<open>null\<close>, of which
  reading \<open>.message\<close> raises a \<open>TypeError\<close>. A notifier's \<open>send\<close> is an \<open>async\<close>
  method, so a \<open>throw\<close> inside it is a rejection of the promise it returns. The model of
  \<open>send\<close> gives, for a notification, the time at which the promise settles and how.
\<close>

datatype reason = Reason string | Nullish

datatype 'a settled = Fulfilled 'a | Rejected reason

type_synonym send_fn = "notification \<Rightarrow> nat \<times> unit settled"

record manager =
  config :: notificationConfig
  notifiers :: "(string \<times> send_fn) list"
  recentNotifications :: "string set"
  logger :: log

definition shouldNotify :: "notificationConfig \<Rightarrow> messageData \<Rightarrow> client \<Rightarrow> bool \<times> log" where
  "shouldNotify cfg md c =
     (let flt = filters cfg;
          lg = [(LDebug, ''Checking notification for message from '' @ md_nick md @ '' in ''
                   @ md_channel md @ '': \"'' @ md_message md @ ''\"'')]
      in if onlyWhenAway flt \<and> (case user c of None \<Rightarrow> False | Some u \<Rightarrow> \<not> truthy (away u))
         then (False, lg @ [(LDebug,
                 ''Skipping notification: onlyWhenAway is enabled and user is not away'')])
         else if highlights flt \<and> md_highlight md
         then (True, lg @ [(LDebug, ''Message is a highlight - sending notification'')])
         else (False, lg @ [(LDebug, ''Message is not a highlight - skipping notification'')]))"

definition truthy_template :: "string option \<Rightarrow> bool" where
  "truthy_template t = (case t of None \<Rightarrow> False | Some s \<Rightarrow> s \<noteq> [])"

definition formatNotification :: "host \<Rightarrow> notificationConfig \<Rightarrow> messageData \<Rightarrow> notification" where
  "formatNotification h cfg md =
     (let fmt = (case format cfg of None \<Rightarrow> getDefaults | Some f \<Rightarrow> f);
          vars = getVariables h md;
          isChannelMessage = (md_channel md \<noteq> [] \<and> startsWith_hash (md_channel md));
          titleTemplate =
            (if isChannelMessage \<and> truthy_template (titleWithChannel fmt)
             then titleWithChannel fmt else title fmt);
          messageTemplate =
            (if md_type md = ''action'' \<and> truthy_template (actionMessage fmt)
             then actionMessage fmt else message fmt)
      in \<lparr>n_title = process titleTemplate vars,
          n_message = process messageTemplate vars,
          n_timestamp = md_timestamp md\<rparr>)"

definition getDeduplicationKey :: "messageData \<Rightarrow> string" where
  "getDeduplicationKey md =
     (let msgHash = take 50 (md_message md)
      in md_network md @ ''-'' @ md_channel md @ ''-'' @ md_nick md @ ''-'' @ msgHash)"

definition cleanupRecentNotifications :: "manager \<Rightarrow> manager" where
  "cleanupRecentNotifications m =
     m\<lparr>recentNotifications := {},
       logger := logger m @ [(LDebug, ''Cleared recent notifications cache'')]\<rparr>"

text \<open>
  \<open>processMessage\<close>. The loop over \<open>Object.entries(this.notifiers)\<close> logs, calls \<open>send\<close>
  and chains \<open>.then(() => sentVia.push(name)).catch(err => logger.error(...))\<close> on the
  returned promise. The callbacks run in the order in which the sends settle (sends that
  settle at the same time keep the loop's order). A \<open>then\<close> callback appends the name to
  \<open>sentVia\<close> and the chained promise is fulfilled. A \<open>catch\<close> callback builds the log line
  from \<open>err.message\<close>: for a reason other than \<open>undefined\<close> and \<open>null\<close> it logs the line
  and the chained promise is fulfilled; for \<open>undefined\<close> or \<open>null\<close> the read raises a
  \<open>TypeError\<close> before anything is logged, and the chained promise is rejected with it.
  \<open>Promise.all\<close> rejects with the first rejection among the chained promises and is
  fulfilled when there is none; the \<open>await\<close> then rethrows a rejection out of
  \<open>processMessage\<close>.
\<close>

definition start_sends ::
  "notification \<Rightarrow> (string \<times> send_fn) list \<Rightarrow> (string \<times> nat \<times> unit settled) list \<times> log" where
  "start_sends n ns =
     (map (\<lambda>(name, send). (name, send n)) ns,
      map (\<lambda>(name, send). (LDebug, ''Sending notification via '' @ name)) ns)"

definition settle_order :: "(string \<times> nat \<times> unit settled) list \<Rightarrow> (string \<times> nat \<times> unit settled) list" where
  "settle_order started = sort_key (\<lambda>(name, t, outcome). t) started"

fun run_callbacks ::
  "string \<Rightarrow> (string \<times> nat \<times> unit settled) list \<Rightarrow> string list \<Rightarrow> log
     \<Rightarrow> string list \<times> log \<times> unit settled list" where
  "run_callbacks tem [] sentVia lg = (sentVia, lg, [])"
| "run_callbacks tem ((name, t, Fulfilled u) # rest) sentVia lg =
     (let (sv, lg', chained) = run_callbacks tem rest (sentVia @ [name]) lg
      in (sv, lg', Fulfilled () # chained))"
| "run_callbacks tem ((name, t, Rejected (Reason msg)) # rest) sentVia lg =
     (let (sv, lg', chained) =
            run_callbacks tem rest sentVia
              (lg @ [(LError, ''Failed to send via '' @ name @ '': '' @ msg)])
      in (sv, lg', Fulfilled () # chained))"
| "run_callbacks tem ((name, t, Rejected Nullish) # rest) sentVia lg =
     (let (sv, lg', chained) = run_callbacks tem rest sentVia lg
      in (sv, lg', Rejected (Reason tem) # chained))"

fun promise_all :: "'a settled list \<Rightarrow> 'a list settled" where
  "promise_all [] = Fulfilled []"
| "promise_all (Rejected e # ps) = Rejected e"
| "promise_all (Fulfilled v # ps) =
     (case promise_all ps of Rejected e \<Rightarrow> Rejected e | Fulfilled vs \<Rightarrow> Fulfilled (v # vs))"

record dispatch_result =
  res_notification :: notification
  res_services :: "string list"
  res_messageData :: messageData

definition processMessage ::
  "host \<Rightarrow> manager \<Rightarrow> messageData \<Rightarrow> client \<Rightarrow> manager \<times> dispatch_result option settled" where
  "processMessage h m md c =
     (let (ok, lg0) = shouldNotify (config m) md c;
          m0 = m\<lparr>logger := logger m @ lg0\<rparr>
      in if \<not> ok then (m0, Fulfilled None)
         else
           let dedupKey = getDeduplicationKey md
           in if dedupKey \<in> recentNotifications m0
              then (m0\<lparr>logger := logger m0
                        @ [(LDebug, ''Skipping duplicate notification: '' @ dedupKey)]\<rparr>,
                    Fulfilled None)
              else
                let m1 = m0\<lparr>recentNotifications := insert dedupKey (recentNotifications m0)\<rparr>;
                    n = formatNotification h (config m1) md;
                    (started, lg1) = start_sends n (notifiers m1);
                    (sentVia, lg2, chained) =
                      run_callbacks (typeErrorMessage h) (settle_order started) []
                        (logger m1 @ lg1);
                    m2 = m1\<lparr>logger := lg2\<rparr>
                in case promise_all chained of
                     Rejected e \<Rightarrow> (m2, Rejected e)
                   | Fulfilled vs \<Rightarrow>
                       (m2, Fulfilled (Some \<lparr>res_notification = n, res_services = sentVia,
                                             res_messageData = md\<rparr>)))"

section \<open>lib/notifiers/base.js\<close>

text \<open>
  One entry of \<open>registerVariables\<close>, as written in a notifier's constructor: each
  attribute may be left out (\<open>None\<close>), which is what \<open>hasOwnProperty\<close> tests.
\<close>

record variable =
  v_default :: "js_value option"
  v_example :: "js_value option"
  v_description :: "string option"
  v_required :: "bool option"
  v_validationError :: "string option"
  v_validate :: "(js_value \<Rightarrow> bool) option"

text \<open>The entries of the \<open>registerVariables\<close> object, in declaration order.\<close>

type_synonym registerVariables = "(string \<times> variable) list"

text \<open>
  The notifier: \<open>serviceConfig\<close> is \<open>this.config\<close> and \<open>defaultServiceConfig_field\<close> is
  \<open>this._defaultServiceConfig\<close> (no notifier of the repository assigns it, so it is the
  empty object of the base constructor).
\<close>

record notifier =
  name :: string
  serviceConfig :: js_object
  registerVariables :: registerVariables
  isSetup :: bool
  defaultServiceConfig_field :: js_object

text \<open>The setter \<open>set registerVariables(value)\<close>: the body of its loop, then the loop.\<close>

definition normalize_variable :: "string \<Rightarrow> variable \<Rightarrow> variable" where
  "normalize_variable key v =
     (let v1 = (if v_required v = None then v\<lparr>v_required := Some False\<rparr> else v);
          v2 = (if v_example v1 = None \<and> v_default v1 \<noteq> None
                then v1\<lparr>v_example := v_default v1\<rparr> else v1);
          v3 = (if v_validationError v2 = None
                then v2\<lparr>v_validationError := Some (''Invalid value for '' @ key)\<rparr> else v2);
          v4 = (if v_validate v3 = None
                then v3\<lparr>v_validate := Some (\<lambda>value. True)\<rparr> else v3)
      in v4)"

definition set_registerVariables :: "registerVariables \<Rightarrow> registerVariables" where
  "set_registerVariables value = map (\<lambda>(key, v). (key, normalize_variable key v)) value"

text \<open>Reading an attribute that may be absent, and the tests that \<open>validate\<close> makes.\<close>

definition attr :: "js_value option \<Rightarrow> js_value" where
  "attr a = (case a of None \<Rightarrow> JUndefined | Some v \<Rightarrow> v)"

definition is_required :: "variable \<Rightarrow> bool" where
  "is_required v = (v_required v = Some True)"

definition is_missing :: "js_value \<Rightarrow> bool" where
  "is_missing value = (value = JUndefined \<or> value = JNull \<or> value = JStr [])"

definition rejects :: "variable \<Rightarrow> js_value \<Rightarrow> bool" where
  "rejects v value = (case v_validate v of None \<Rightarrow> False | Some f \<Rightarrow> \<not> f value)"

fun validate_loop :: "js_object \<Rightarrow> registerVariables \<Rightarrow> bool" where
  "validate_loop cfg [] = True"
| "validate_loop cfg ((key, v) # rest) =
     (let value = get_prop cfg key
      in if is_required v \<and> is_missing value then False
         else if rejects v value then False
         else validate_loop cfg rest)"

definition validate :: "notifier \<Rightarrow> bool" where
  "validate n = validate_loop (serviceConfig n) (registerVariables n)"

definition validationError_or_default :: "string \<Rightarrow> string \<Rightarrow> variable \<Rightarrow> string" where
  "validationError_or_default nm key v =
     (case v_validationError v of
        Some e \<Rightarrow> if e \<noteq> [] then e
                  else ''Configuration error: '' @ key @ '' is required for '' @ nm
      | None \<Rightarrow> ''Configuration error: '' @ key @ '' is required for '' @ nm)"

fun validateWithLogging_loop :: "string \<Rightarrow> js_object \<Rightarrow> registerVariables \<Rightarrow> bool \<times> log" where
  "validateWithLogging_loop nm cfg [] = (True, [])"
| "validateWithLogging_loop nm cfg ((key, v) # rest) =
     (let value = get_prop cfg key;
          validationError = validationError_or_default nm key v
      in if is_required v \<and> is_missing value then (False, [(LError, validationError)])
         else if rejects v value then (False, [(LError, validationError)])
         else validateWithLogging_loop nm cfg rest)"

definition validateWithLogging :: "notifier \<Rightarrow> bool \<times> log" where
  "validateWithLogging n =
     validateWithLogging_loop (name n) (serviceConfig n) (registerVariables n)"

text \<open>The getter \<open>get defaultServiceConfig()\<close>.\<close>

definition default_value :: "variable \<Rightarrow> js_value" where
  "default_value v =
     (let typeOf = (if attr (v_example v) \<noteq> JUndefined then typeof (attr (v_example v))
                    else typeof (attr (v_default v)))
      in if attr (v_default v) \<noteq> JUndefined then attr (v_default v)
         else if attr (v_example v) \<noteq> JUndefined then attr (v_example v)
         else if typeOf = ''string'' then JStr []
         else if typeOf = ''number'' then JNum (Finite 0)
         else if typeOf = ''boolean'' then JBool False
         else JNull)"

fun defaultConfig_loop :: "js_object \<Rightarrow> registerVariables \<Rightarrow> js_object" where
  "defaultConfig_loop defaultConfig [] = defaultConfig"
| "defaultConfig_loop defaultConfig ((key, v) # rest) =
     defaultConfig_loop (set_prop defaultConfig key (default_value v)) rest"

definition defaultServiceConfig :: "notifier \<Rightarrow> js_object" where
  "defaultServiceConfig n =
     (if defaultServiceConfig_field n \<noteq> [] then defaultServiceConfig_field n
      else defaultConfig_loop [(''enabled'', JBool False)] (registerVariables n))"

text \<open>
  The module \<open>lib/format.js\<close> (\<open>const { C, F } = require("../format")\<close>) is not among the
  sources; what \<open>handleConfig\<close> uses of it is a parameter.
\<close>

record format_module =
  F_ERROR :: "string \<Rightarrow> string"
  F_SUCCESS :: "string \<Rightarrow> string"
  F_INDENT :: "nat \<Rightarrow> string"
  C_ORANGE :: string
  C_CYAN :: string
  C_RESET :: string

text \<open>The object that \<open>handleConfig\<close> returns; the failure results carry no \<open>autoEnabled\<close>.\<close>

record config_result =
  success :: bool
  messages :: "string list"
  autoEnabled :: "bool option"

text \<open>
  \<open>handleConfig(config, setting, value)\<close> mutates \<open>config\<close>; the model returns the document
  after the call together with the result object. Its steps, in the order of the source:
  \<open>init_services\<close> (the first two \<open>if\<close>s), \<open>find_key\<close> (the \<open>find\<close> over
  \<open>Object.keys(this.registerVariables)\<close>, with the entry it names), \<open>parse_value\<close> (the
  \<open>switch\<close> on \<open>typeof variable.example\<close>; the guard \<open>if (typeOf)\<close> around it always
  holds, \<open>typeof\<close> never giving an empty string).
\<close>

definition init_services :: "notifier \<Rightarrow> notificationConfig \<Rightarrow> (string \<times> js_object) list" where
  "init_services n cfg =
     (let svcs = (case services cfg of None \<Rightarrow> [] | Some s \<Rightarrow> s)
      in case map_of svcs (name n) of
           None \<Rightarrow> AList.update (name n) (defaultServiceConfig n) svcs
         | Some svc \<Rightarrow> svcs)"

definition find_key :: "host \<Rightarrow> registerVariables \<Rightarrow> string \<Rightarrow> (string \<times> variable) option" where
  "find_key h vars setting =
     find (\<lambda>(key, v). toLowerCase h key = toLowerCase h setting) vars"

definition parse_value :: "host \<Rightarrow> format_module \<Rightarrow> variable \<Rightarrow> string \<Rightarrow> string \<Rightarrow> string + js_value" where
  "parse_value h fm v setting value =
     (let exampleType = typeof (attr (v_example v))
      in if exampleType = ''number'' then
           (let parsedValue = parseFloat h value
            in if parsedValue = NaN
               then Inl (F_ERROR fm (''Invalid value for '' @ setting @ '': expected a number''))
               else Inr (JNum parsedValue))
         else if exampleType = ''boolean'' then
           (let parsedValue = toLowerCase h value
            in if parsedValue = ''true'' \<or> parsedValue = ''1'' then Inr (JBool True)
               else if parsedValue = ''false'' \<or> parsedValue = ''0'' then Inr (JBool False)
               else Inl (F_ERROR fm (''Invalid value for '' @ setting
                                       @ '': expected a boolean (true/false)'')))
         else Inr (JStr value))"

definition unknown_setting :: "format_module \<Rightarrow> notifier \<Rightarrow> string \<Rightarrow> config_result" where
  "unknown_setting fm n setting =
     \<lparr>success = False,
      messages =
        [F_ERROR fm (''Unknown '' @ name n @ '' setting: '' @ C_ORANGE fm @ setting @ C_RESET fm),
         F_INDENT fm 1 @ ''Valid settings: '' @ C_CYAN fm
           @ join '', '' (map fst (registerVariables n)) @ C_RESET fm],
      autoEnabled = None\<rparr>"

definition failure :: "string \<Rightarrow> config_result" where
  "failure msg = \<lparr>success = False, messages = [msg], autoEnabled = None\<rparr>"

text \<open>
  An absent \<open>validationError\<close> reaches \<open>F.ERROR\<close> as \<open>undefined\<close>; it is written here as the
  text \<open>undefined\<close>. After the setter every entry has a \<open>validationError\<close>.
\<close>

definition handleConfig ::
  "host \<Rightarrow> format_module \<Rightarrow> notifier \<Rightarrow> notificationConfig \<Rightarrow> string \<Rightarrow> string
     \<Rightarrow> notificationConfig \<times> config_result" where
  "handleConfig h fm n cfg setting value =
     (let svcs = init_services n cfg;
          cfg1 = cfg\<lparr>services := Some svcs\<rparr>
      in case find_key h (registerVariables n) setting of
           None \<Rightarrow> (cfg1, unknown_setting fm n setting)
         | Some (actualKey, v) \<Rightarrow>
             if actualKey = [] then (cfg1, unknown_setting fm n setting)
             else
               (case parse_value h fm v setting value of
                  Inl msg \<Rightarrow> (cfg1, failure msg)
                | Inr parsedValue \<Rightarrow>
                    if rejects v parsedValue
                    then (cfg1, failure (F_ERROR fm
                            (case v_validationError v of None \<Rightarrow> ''undefined'' | Some e \<Rightarrow> e)))
                    else
                      let svc = (case map_of svcs (name n) of None \<Rightarrow> [] | Some s \<Rightarrow> s);
                          svc1 = set_prop svc actualKey parsedValue;
                          msg = F_SUCCESS fm (name n @ '' setting '' @ C_CYAN fm @ actualKey
                                                @ C_RESET fm @ '' updated'');
                          auto = (\<not> truthy (get_prop svc1 ''enabled'')
                                  \<and> validate (n\<lparr>serviceConfig := svc1\<rparr>));
                          svc2 = (if auto then set_prop svc1 ''enabled'' (JBool True) else svc1);
                          msgs = (if auto
                                  then [msg, F_SUCCESS fm (name n
                                          @ '' service auto-enabled (all required fields are set)'')]
                                  else [msg])
                      in (cfg1\<lparr>services := Some (AList.update (name n) svc2 svcs)\<rparr>,
                          \<lparr>success = True, messages = msgs, autoEnabled = Some auto\<rparr>)))"

section \<open>Example inputs\<close>

text \<open>
  Concrete inputs at which the theorems below are instantiated: the event and the filter
  settings of the test suite, a client that is not away, and a manager with two notifiers,
  of which \<open>good\<close> resolves and \<open>bad\<close> rejects first.
\<close>


definition example_host :: host where
  "example_host =
     \<lparr>now = 0,
      toLocaleString = (\<lambda>t. ''Jan 1, 00:00''),
      toISOString = (\<lambda>t. ''1970-01-01T00:00:00.000Z''),
      toLocaleTimeString = (\<lambda>t. ''00:00''),
      parseFloat = (\<lambda>s. if s = ''1'' then Finite 1 else NaN),
      toLowerCase = ascii_toLowerCase,
      typeErrorMessage = ''Cannot read properties of undefined''\<rparr>"

definition example_event :: messageData where
  "example_event =
     \<lparr>md_type = ''message'', md_network = ''freenode'', md_channel = ''#test'',
      md_nick = ''bob'', md_message = ''hey testuser'', md_timestamp = Some 0,
      md_highlight = True\<rparr>"

definition example_config :: notificationConfig where
  "example_config =
     \<lparr>enabled = True, services = Some [],
      filters = \<lparr>onlyWhenAway = False, highlights = True,
                  channels = Some \<lparr>whitelist = [], blacklist = []\<rparr>\<rparr>,
      format = None\<rparr>"

definition example_client :: client where
  "example_client = \<lparr>user = Some \<lparr>away = JBool False\<rparr>\<rparr>"

definition example_manager :: manager where
  "example_manager =
     \<lparr>config = example_config,
      notifiers = [(''good'', \<lambda>n. (2, Fulfilled ())),
                   (''bad'', \<lambda>n. (1, Rejected (Reason ''boom'')))],
      recentNotifications = {},
      logger = []\<rparr>"

text \<open>
  The same manager with a second notifier whose send rejects without a reason, as
  \<open>Promise.reject()\<close> or \<open>throw undefined\<close> in an \<open>async send\<close> does.
\<close>

definition nullish_manager :: manager where
  "nullish_manager =
     \<lparr>config = example_config,
      notifiers = [(''good'', \<lambda>n. (2, Fulfilled ())), (''bad'', \<lambda>n. (1, Rejected Nullish))],
      recentNotifications = {},
      logger = []\<rparr>"

text \<open>
  Two highlights by the same nick in the same channel whose messages agree on the first 50
  characters and differ in the 51st, and the manager after the first of them was processed.
\<close>

definition long_event_a :: messageData where
  "long_event_a =
     example_event\<lparr>md_message := ''0123456789012345678901234567890123456789012345678 A''\<rparr>"

definition long_event_b :: messageData where
  "long_event_b =
     example_event\<lparr>md_message := ''0123456789012345678901234567890123456789012345678 B''\<rparr>"

definition after_long_event_a :: manager where
  "after_long_event_a =
     fst (processMessage example_host example_manager long_event_a example_client)"

text \<open>
  The chained promise of one send, read off \<open>run_callbacks\<close>: rejected with the
  \<open>TypeError\<close> when the send rejected with \<open>undefined\<close> or \<open>null\<close>, fulfilled otherwise.
\<close>

definition chained_outcome :: "string \<Rightarrow> string \<times> nat \<times> unit settled \<Rightarrow> unit settled" where
  "chained_outcome tem x =
     (if snd (snd x) = Rejected Nullish then Rejected (Reason tem) else Fulfilled ())"

definition blacklist_config :: notificationConfig where
  "blacklist_config =
     example_config\<lparr>filters := \<lparr>onlyWhenAway = False, highlights = True,
        channels = Some \<lparr>whitelist = [''#allowed''], blacklist = [''#test'']\<rparr>\<rparr>\<rparr>"

section \<open>Example notifier and the specification's wording\<close>

text \<open>
  The base constructor: the two fields it declares, with their validator
  \<open>typeof value === 'string' && value.length > 0\<close>, and the configuration it is given
  (\<open>config || {}\<close>).
\<close>

definition nonempty_string :: "js_value \<Rightarrow> bool" where
  "nonempty_string value = (case value of JStr s \<Rightarrow> s \<noteq> [] | _ \<Rightarrow> False)"

definition userKey_variable :: variable where
  "userKey_variable =
     \<lparr>v_default = Some (JStr []), v_example = Some (JStr ''YOUR_USER_KEY''),
      v_description = Some ''Your user key for the service'',
      v_required = Some True,
      v_validationError = Some ''User key must be a non-empty string'',
      v_validate = Some nonempty_string\<rparr>"

definition apiToken_variable :: variable where
  "apiToken_variable =
     \<lparr>v_default = Some (JStr []), v_example = Some (JStr ''YOUR_API_TOKEN''),
      v_description = Some ''Your API token for the service'',
      v_required = Some True,
      v_validationError = Some ''API token must be a non-empty string'',
      v_validate = Some nonempty_string\<rparr>"

definition BaseNotifier :: "js_object \<Rightarrow> notifier" where
  "BaseNotifier cfg =
     \<lparr>name = ''BaseNotifier'',
      serviceConfig = cfg,
      registerVariables = [(''userKey'', userKey_variable), (''apiToken'', apiToken_variable)],
      isSetup = False,
      defaultServiceConfig_field = []\<rparr>"

text \<open>
  The failure of one field as the specification words it: a required field whose value is
  undefined, null or the empty string, or a field whose validator rejects its value.
\<close>

definition field_fails :: "js_object \<Rightarrow> string \<times> variable \<Rightarrow> bool" where
  "field_fails cfg kv =
     (let value = get_prop cfg (fst kv)
      in (is_required (snd kv) \<and> is_missing value) \<or> rejects (snd kv) value)"

text \<open>A field declared with neither \<open>default\<close> nor \<open>example\<close>.\<close>

definition bare_variable :: variable where
  "bare_variable =
     \<lparr>v_default = None, v_example = None, v_description = Some ''Topic name'',
      v_required = Some True, v_validationError = None, v_validate = None\<rparr>"

text \<open>
  The normal form of a field as the specification words it, attribute by attribute.
\<close>

definition normal_form :: "string \<Rightarrow> variable \<Rightarrow> variable" where
  "normal_form key v =
     \<lparr>v_default = v_default v,
      v_example = (case v_example v of None \<Rightarrow> v_default v | Some e \<Rightarrow> Some e),
      v_description = v_description v,
      v_required = Some (case v_required v of None \<Rightarrow> False | Some r \<Rightarrow> r),
      v_validationError =
        Some (case v_validationError v of None \<Rightarrow> ''Invalid value for '' @ key | Some e \<Rightarrow> e),
      v_validate = Some (case v_validate v of None \<Rightarrow> (\<lambda>value. True) | Some f \<Rightarrow> f)\<rparr>"

text \<open>The notifier's entry in \<open>config.services\<close>, if the document has one.\<close>

definition service_entry :: "notifier \<Rightarrow> notificationConfig \<Rightarrow> js_object option" where
  "service_entry n cfg = (case services cfg of None \<Rightarrow> None | Some svcs \<Rightarrow> map_of svcs (name n))"

text \<open>
  A stand-in for \<open>lib/format.js\<close>, a document in which the base notifier has its user key
  but not yet its API token, and a notifier whose two declared names differ by case only.
\<close>

definition example_format :: format_module where
  "example_format =
     \<lparr>F_ERROR = (\<lambda>s. ''ERROR: '' @ s),
      F_SUCCESS = (\<lambda>s. ''OK: '' @ s),
      F_INDENT = (\<lambda>k. concat (replicate k ''  '')),
      C_ORANGE = ''<orange>'',
      C_CYAN = ''<cyan>'',
      C_RESET = ''<reset>''\<rparr>"

definition half_configured :: notificationConfig where
  "half_configured =
     example_config\<lparr>services := Some [(''BaseNotifier'',
        [(''enabled'', JBool False), (''userKey'', JStr ''abc''), (''apiToken'', JStr '''')])]\<rparr>"

definition colliding_notifier :: notifier where
  "colliding_notifier =
     (BaseNotifier [])\<lparr>registerVariables :=
        [(''userKey'', userKey_variable), (''userkey'', apiToken_variable)]\<rparr>"

section \<open>Templates as literal text and placeholders\<close>

text \<open>
  A template as the specification reads it: literal text and placeholders \<open>{{key}}\<close>.
  \<open>template_of\<close> is the template string; \<open>rendered\<close> is the string with every placeholder
  whose key is in the mapping replaced by its value (the empty string for a value that is
  undefined or null) and every placeholder whose key is not in the mapping left as it is.
\<close>

datatype token = Lit string | Var string

fun token_text :: "token \<Rightarrow> string" where
  "token_text (Lit t) = t"
| "token_text (Var key) = placeholder key"

definition template_of :: "token list \<Rightarrow> string" where
  "template_of toks = concat (map token_text toks)"

text \<open>
  The scope in which the properties below are stated: keys without characters that are
  special in a regular expression (for them the pattern built by \<open>process\<close> matches the
  text \<open>{{key}}\<close> literally), literal text without an opening brace, and values without
  an opening brace and without a dollar sign.
\<close>

definition regex_special :: "char list" where
  "regex_special = CHR 0x5C # ''^$.*+?()[]{}|''"

definition plain_key :: "string \<Rightarrow> bool" where
  "plain_key key = (set key \<inter> set regex_special = {})"

fun well_formed_token :: "token \<Rightarrow> bool" where
  "well_formed_token (Lit t) = (CHR ''{'' \<notin> set t)"
| "well_formed_token (Var key) = plain_key key"

definition plain_value :: "string option \<Rightarrow> bool" where
  "plain_value v = (CHR ''{'' \<notin> set (value_or_empty v) \<and> CHR ''$'' \<notin> set (value_or_empty v))"

fun rendered_token :: "variables \<Rightarrow> token \<Rightarrow> string" where
  "rendered_token vars (Lit t) = t"
| "rendered_token vars (Var key) =
     (case map_of vars key of None \<Rightarrow> placeholder key | Some v \<Rightarrow> value_or_empty v)"

definition rendered :: "variables \<Rightarrow> token list \<Rightarrow> string" where
  "rendered vars toks = concat (map (rendered_token vars) toks)"

text \<open>One step of the loop of \<open>process\<close>, seen on the tokens.\<close>

fun substitute_one :: "string \<Rightarrow> string \<Rightarrow> token \<Rightarrow> token" where
  "substitute_one key rep (Lit t) = Lit t"
| "substitute_one key rep (Var key') = (if key' = key then Lit rep else Var key')"

section \<open>Properties of the notification manager\<close>

lemma shouldNotify_without_user:
  "fst (shouldNotify cfg md \<lparr>user = None\<rparr>) = (highlights (filters cfg) \<and> md_highlight md)"
  by (simp add: shouldNotify_def Let_def)

text \<open>
  C2. With the presence of the identity known (\<open>client.user\<close> is there), \<open>shouldNotify\<close> is
  false whenever \<open>onlyWhenAway\<close> is set and the identity is not away; otherwise it is true
  exactly when \<open>highlights\<close> is set and the event is a highlight.
\<close>

theorem shouldNotify_policy:
  "fst (shouldNotify cfg md \<lparr>user = Some u\<rparr>) =
     (if onlyWhenAway (filters cfg) \<and> \<not> truthy (away u) then False
      else highlights (filters cfg) \<and> md_highlight md)"
  by (simp add: shouldNotify_def Let_def)

text \<open>
  C4. Two events with the same network, channel and nick have the same deduplication key
  exactly when their messages agree on the first 50 characters: equal prefixes give equal
  keys, and messages that differ within the first 50 characters give different keys.
\<close>

theorem getDeduplicationKey_prefix:
  assumes "md_network a = md_network b"
    and "md_channel a = md_channel b"
    and "md_nick a = md_nick b"
  shows "(take 50 (md_message a) = take 50 (md_message b)
            \<longrightarrow> getDeduplicationKey a = getDeduplicationKey b)
       \<and> (take 50 (md_message a) \<noteq> take 50 (md_message b)
            \<longrightarrow> getDeduplicationKey a \<noteq> getDeduplicationKey b)"
  using assms by (simp add: getDeduplicationKey_def Let_def)

text \<open>
  The theorem at the example event and at a copy of it with another message: the first
  has the key of itself, the two have different keys.
\<close>

theorem getDeduplicationKey_prefix_witness:
  "getDeduplicationKey example_event = getDeduplicationKey example_event
   \<and> getDeduplicationKey example_event
       \<noteq> getDeduplicationKey (example_event\<lparr>md_message := ''goodbye world''\<rparr>)"
  using getDeduplicationKey_prefix [of example_event example_event]
    getDeduplicationKey_prefix
      [of example_event "example_event\<lparr>md_message := ''goodbye world''\<rparr>"]
  by (simp add: example_event_def)

lemma run_callbacks_result:
  "run_callbacks tem xs sv lg = (sv', lg', chained) \<Longrightarrow>
     sv' = sv @ map fst (filter (\<lambda>(name, t, outcome). outcome = Fulfilled ()) xs)
     \<and> chained = map (chained_outcome tem) xs"
  by (induction tem xs sv lg arbitrary: sv' lg' chained rule: run_callbacks.induct)
     (auto simp add: chained_outcome_def split: prod.splits)

lemma promise_all_chained:
  "promise_all (map (chained_outcome tem) xs) =
     (if list_ex (\<lambda>x. snd (snd x) = Rejected Nullish) xs then Rejected (Reason tem)
      else Fulfilled (map (\<lambda>x. ()) xs))"
  by (induction xs) (auto simp add: chained_outcome_def)

lemma set_settle_order: "set (settle_order xs) = set xs"
  by (simp add: settle_order_def)

lemma nullish_started:
  "start_sends n ns = (started, lg) \<Longrightarrow>
     list_ex (\<lambda>x. snd (snd x) = Rejected Nullish) (settle_order started)
       = (\<exists>(name, send) \<in> set ns. snd (send n) = Rejected Nullish)"
proof -
  assume "start_sends n ns = (started, lg)"
  then have "started = map (\<lambda>(name, send). (name, send n)) ns"
    by (simp add: start_sends_def)
  then show ?thesis
    by (simp add: list_ex_iff set_settle_order case_prod_beta)
qed

lemma processMessage_outcome:
  assumes "fst (shouldNotify (config m) md c)"
    and "getDeduplicationKey md \<notin> recentNotifications m"
  shows "snd (processMessage h m md c) =
           (if \<exists>(name, send) \<in> set (notifiers m).
                 snd (send (formatNotification h (config m) md)) = Rejected Nullish
            then Rejected (Reason (typeErrorMessage h))
            else Fulfilled (Some \<lparr>res_notification = formatNotification h (config m) md,
              res_services = map fst (filter (\<lambda>(name, t, outcome). outcome = Fulfilled ())
                 (settle_order (fst (start_sends (formatNotification h (config m) md)
                                       (notifiers m))))),
              res_messageData = md\<rparr>))"
proof -
  let ?n = "formatNotification h (config m) md"
  obtain ok lg0 where sn: "shouldNotify (config m) md c = (ok, lg0)"
    by (cases "shouldNotify (config m) md c")
  with assms(1) have ok: "ok" by simp
  obtain started lg1 where st: "start_sends ?n (notifiers m) = (started, lg1)"
    by (cases "start_sends ?n (notifiers m)")
  obtain sv lg2 chained
    where rc: "run_callbacks (typeErrorMessage h) (settle_order started) []
                 (logger m @ lg0 @ lg1) = (sv, lg2, chained)"
    by (cases "run_callbacks (typeErrorMessage h) (settle_order started) []
                 (logger m @ lg0 @ lg1)")
  from run_callbacks_result [OF rc]
  have sv: "sv = map fst (filter (\<lambda>(name, t, outcome). outcome = Fulfilled ())
                         (settle_order started))"
    and ch: "chained = map (chained_outcome (typeErrorMessage h)) (settle_order started)"
    by simp_all
  have pa: "promise_all chained =
     (if \<exists>(name, send) \<in> set (notifiers m). snd (send ?n) = Rejected Nullish
      then Rejected (Reason (typeErrorMessage h))
      else Fulfilled (map (\<lambda>x. ()) (settle_order started)))"
    unfolding ch promise_all_chained nullish_started [OF st] ..
  have body: "processMessage h m md c =
     (case promise_all chained of
        Rejected e \<Rightarrow>
          (m\<lparr>logger := logger m @ lg0,
             recentNotifications := insert (getDeduplicationKey md) (recentNotifications m),
             logger := lg2\<rparr>, Rejected e)
      | Fulfilled vs \<Rightarrow>
          (m\<lparr>logger := logger m @ lg0,
             recentNotifications := insert (getDeduplicationKey md) (recentNotifications m),
             logger := lg2\<rparr>,
           Fulfilled (Some \<lparr>res_notification = ?n, res_services = sv,
                                 res_messageData = md\<rparr>)))"
    using assms(2) by (simp add: processMessage_def Let_def sn ok st rc split: settled.splits)
  from st have "started = fst (start_sends ?n (notifiers m))" by simp
  then show ?thesis
    unfolding body pa sv by simp
qed

lemma processMessage_records:
  assumes "fst (shouldNotify (config m) md c)"
    and "getDeduplicationKey md \<notin> recentNotifications m"
  shows "recentNotifications (fst (processMessage h m md c))
           = insert (getDeduplicationKey md) (recentNotifications m)"
  using assms
  by (auto simp add: processMessage_def Let_def split: prod.splits settled.splits)

lemma processMessage_keeps:
  "config (fst (processMessage h m md c)) = config m
   \<and> notifiers (fst (processMessage h m md c)) = notifiers m
   \<and> recentNotifications m \<subseteq> recentNotifications (fst (processMessage h m md c))"
  by (auto simp add: processMessage_def Let_def split: prod.splits settled.splits)

lemma processMessage_seen:
  assumes "getDeduplicationKey md \<in> recentNotifications m"
  shows "snd (processMessage h m md c) = Fulfilled None"
  using assms by (auto simp add: processMessage_def Let_def split: prod.splits)

text \<open>The bulk clear starts a new cycle: an event that passes the filters is dispatched again.\<close>

lemma processMessage_after_cleanup:
  assumes "fst (shouldNotify (config m) md c)"
  shows "snd (processMessage h (cleanupRecentNotifications m) md c) \<noteq> Fulfilled None"
proof -
  have "fst (shouldNotify (config (cleanupRecentNotifications m)) md c)"
    using assms by (simp add: cleanupRecentNotifications_def)
  moreover have "getDeduplicationKey md \<notin> recentNotifications (cleanupRecentNotifications m)"
    by (simp add: cleanupRecentNotifications_def)
  ultimately show ?thesis
    by (simp add: processMessage_outcome)
qed

lemma sent_names:
  "set (map fst (filter (\<lambda>(name, t, outcome). outcome = Fulfilled ())
           (settle_order (fst (start_sends n ns)))))
     = {name. \<exists>send t. (name, send) \<in> set ns \<and> send n = (t, Fulfilled ())}"
proof -
  have "set (map fst (filter (\<lambda>(name, t, outcome). outcome = Fulfilled ())
           (settle_order (fst (start_sends n ns)))))
        = fst ` {x \<in> set (fst (start_sends n ns)). (\<lambda>(name, t, outcome). outcome = Fulfilled ()) x}"
    by (simp add: set_settle_order)
  also have "\<dots> = {name. \<exists>send t. (name, send) \<in> set ns \<and> send n = (t, Fulfilled ())}"
  proof (intro set_eqI iffI)
    fix name
    assume "name \<in> fst ` {x \<in> set (fst (start_sends n ns)).
                       (\<lambda>(name, t, outcome). outcome = Fulfilled ()) x}"
    then obtain t where "(name, t, Fulfilled ()) \<in> set (fst (start_sends n ns))"
      by auto
    then obtain send where "(name, send) \<in> set ns" and "send n = (t, Fulfilled ())"
      by (auto simp add: start_sends_def)
    then show "name \<in> {name. \<exists>send t. (name, send) \<in> set ns \<and> send n = (t, Fulfilled ())}"
      by blast
  next
    fix name
    assume "name \<in> {name. \<exists>send t. (name, send) \<in> set ns \<and> send n = (t, Fulfilled ())}"
    then obtain send t where m: "(name, send) \<in> set ns" and s: "send n = (t, Fulfilled ())"
      by blast
    from m have "(name, send n) \<in> set (fst (start_sends n ns))"
      by (force simp add: start_sends_def)
    with s have "(name, t, Fulfilled ()) \<in> {x \<in> set (fst (start_sends n ns)).
                       (\<lambda>(name, t, outcome). outcome = Fulfilled ()) x}"
      by simp
    then show "name \<in> fst ` {x \<in> set (fst (start_sends n ns)).
                       (\<lambda>(name, t, outcome). outcome = Fulfilled ()) x}"
      by force
  qed
  finally show ?thesis .
qed

text \<open>
  What the code does for the failures it handles: when every failing send rejects with a
  reason other than \<open>undefined\<close> and \<open>null\<close>, \<open>processMessage\<close> is fulfilled with a result
  whose \<open>services\<close> are exactly the names of the notifiers whose send resolved, and no
  failing notifier is among them.
\<close>

lemma processMessage_isolates_reasons:
  assumes "fst (shouldNotify (config m) md c)"
    and "getDeduplicationKey md \<notin> recentNotifications m"
    and "distinct (map fst (notifiers m))"
    and "\<forall>(name, send) \<in> set (notifiers m).
           snd (send (formatNotification h (config m) md)) \<noteq> Rejected Nullish"
  shows "\<exists>r. snd (processMessage h m md c) = Fulfilled (Some r)
           \<and> set (res_services r) =
               {name. \<exists>send t. (name, send) \<in> set (notifiers m)
                         \<and> send (res_notification r) = (t, Fulfilled ())}
           \<and> (\<forall>(name, send) \<in> set (notifiers m).
                 (\<exists>t e. send (res_notification r) = (t, Rejected e))
                   \<longrightarrow> name \<notin> set (res_services r))"
proof -
  let ?n = "formatNotification h (config m) md"
  let ?sv = "map fst (filter (\<lambda>(name, t, outcome). outcome = Fulfilled ())
                 (settle_order (fst (start_sends ?n (notifiers m)))))"
  let ?r = "\<lparr>res_notification = ?n, res_services = ?sv, res_messageData = md\<rparr>"
  from assms(4) have "\<not> (\<exists>(name, send) \<in> set (notifiers m). snd (send ?n) = Rejected Nullish)"
    by auto
  then have res: "snd (processMessage h m md c) = Fulfilled (Some ?r)"
    using processMessage_outcome [OF assms(1,2), of h] by simp
  have names: "set ?sv = {name. \<exists>send t. (name, send) \<in> set (notifiers m)
                         \<and> send ?n = (t, Fulfilled ())}"
    by (rule sent_names)
  have absent: "name \<notin> set ?sv"
    if "(name, send) \<in> set (notifiers m)" and "send ?n = (t, Rejected e)" for name send t e
  proof
    assume "name \<in> set ?sv"
    then obtain send' t' where s': "(name, send') \<in> set (notifiers m)"
      and ok: "send' ?n = (t', Fulfilled ())"
      unfolding names by blast
    from assms(3) that(1) s' have "send' = send"
      by (meson eq_key_imp_eq_value)
    with ok that(2) show False by simp
  qed
  show ?thesis
    apply (rule exI [of _ ?r])
    using res names absent by auto
qed

text \<open>
  C1. For every event that passes the filter and the deduplication check and every map of
  notifiers, some of whose sends reject or throw while others resolve, \<open>processMessage\<close>
  should resolve with a result that lists the notifiers whose send resolved. The code does
  not when a send rejects with \<open>undefined\<close> or \<open>null\<close>: at the example event, with \<open>good\<close>
  resolving and \<open>bad\<close> rejecting without a reason, the \<open>catch\<close> callback raises a
  \<open>TypeError\<close> on \<open>err.message\<close> and \<open>processMessage\<close> rejects with it, although the
  event passes both checks and \<open>good\<close> resolved.
\<close>

theorem processMessage_rejects_on_nullish_reason:
  "fst (shouldNotify (config nullish_manager) example_event example_client)
   \<and> getDeduplicationKey example_event \<notin> recentNotifications nullish_manager
   \<and> map fst (notifiers nullish_manager) = [''good'', ''bad'']
   \<and> snd (processMessage example_host nullish_manager example_event example_client)
       = Rejected (Reason (typeErrorMessage example_host))"
proof -
  have a: "fst (shouldNotify (config nullish_manager) example_event example_client)"
    by (simp add: shouldNotify_def nullish_manager_def example_config_def example_event_def
        example_client_def)
  have b: "getDeduplicationKey example_event \<notin> recentNotifications nullish_manager"
    by (simp add: nullish_manager_def)
  have c: "map fst (notifiers nullish_manager) = [''good'', ''bad'']"
    by (simp add: nullish_manager_def)
  have d: "\<exists>(name, send) \<in> set (notifiers nullish_manager).
             snd (send (formatNotification example_host (config nullish_manager) example_event))
               = Rejected Nullish"
    by (simp add: nullish_manager_def)
  from processMessage_outcome [OF a b, of example_host] d
  have "snd (processMessage example_host nullish_manager example_event example_client)
          = Rejected (Reason (typeErrorMessage example_host))"
    by simp
  with a b c show ?thesis by simp
qed

text \<open>
  C3, as the code has it. For an event that passes the filters and whose key has not been
  recorded in the current deduplication cycle, by this event or by another with the same
  network, channel, nick and first 50 characters, two calls of \<open>processMessage\<close> with that
  event, with no clearing of the set in between, give exactly one result that is not null:
  the first call records the key and returns a result, the second returns null. (Stated for
  notifiers none of whose sends rejects with \<open>undefined\<close> or \<open>null\<close>; what the first call
  does otherwise is the subject of C1.)
\<close>

theorem processMessage_dedup:
  assumes "fst (shouldNotify (config m) md c)"
    and "getDeduplicationKey md \<notin> recentNotifications m"
    and "\<forall>(name, send) \<in> set (notifiers m).
           snd (send (formatNotification h (config m) md)) \<noteq> Rejected Nullish"
  shows "(\<exists>r. snd (processMessage h m md c) = Fulfilled (Some r))
       \<and> getDeduplicationKey md \<in> recentNotifications (fst (processMessage h m md c))
       \<and> snd (processMessage h' (fst (processMessage h m md c)) md c) = Fulfilled None"
proof -
  have rec: "getDeduplicationKey md \<in> recentNotifications (fst (processMessage h m md c))"
    using processMessage_records [OF assms(1,2)] by simp
  then have "snd (processMessage h' (fst (processMessage h m md c)) md c) = Fulfilled None"
    by (rule processMessage_seen)
  moreover from assms(3)
  have "\<not> (\<exists>(name, send) \<in> set (notifiers m).
            snd (send (formatNotification h (config m) md)) = Rejected Nullish)"
    by auto
  then have "\<exists>r. snd (processMessage h m md c) = Fulfilled (Some r)"
    using processMessage_outcome [OF assms(1,2), of h] by simp
  ultimately show ?thesis using rec by simp
qed

text \<open>The theorem at the example manager and event.\<close>

theorem processMessage_dedup_witness:
  "(\<exists>r. snd (processMessage example_host example_manager example_event example_client)
              = Fulfilled (Some r))
   \<and> snd (processMessage example_host
        (fst (processMessage example_host example_manager example_event example_client))
        example_event example_client) = Fulfilled None"
proof -
  have a: "fst (shouldNotify (config example_manager) example_event example_client)"
    by (simp add: shouldNotify_def example_manager_def example_config_def example_event_def
        example_client_def)
  have b: "getDeduplicationKey example_event \<notin> recentNotifications example_manager"
    by (simp add: example_manager_def)
  have c: "\<forall>(name, send) \<in> set (notifiers example_manager).
             snd (send (formatNotification example_host (config example_manager) example_event))
               \<noteq> Rejected Nullish"
    by (simp add: example_manager_def)
  from processMessage_dedup [OF a b c] show ?thesis by blast
qed

text \<open>
  C3 as stated fails: the second of two different highlights whose messages share the
  first 50 characters passes the filters, yet both calls of \<open>processMessage\<close> with it, made
  after the first highlight in the same cycle, return null.
\<close>

theorem processMessage_dedup_counterexample:
  "md_message long_event_a \<noteq> md_message long_event_b
   \<and> fst (shouldNotify (config after_long_event_a) long_event_b example_client)
   \<and> snd (processMessage example_host after_long_event_a long_event_b example_client)
       = Fulfilled None
   \<and> snd (processMessage example_host
        (fst (processMessage example_host after_long_event_a long_event_b example_client))
        long_event_b example_client) = Fulfilled None"
proof -
  have ne: "md_message long_event_a \<noteq> md_message long_event_b"
    by (simp add: long_event_a_def long_event_b_def)
  have cfg: "config after_long_event_a = example_config"
    by (simp add: after_long_event_a_def processMessage_keeps example_manager_def)
  have pass: "fst (shouldNotify (config after_long_event_a) long_event_b example_client)"
    by (simp add: cfg shouldNotify_def example_config_def long_event_b_def example_event_def
        example_client_def)
  have a: "fst (shouldNotify (config example_manager) long_event_a example_client)"
    by (simp add: shouldNotify_def example_manager_def example_config_def long_event_a_def
        example_event_def example_client_def)
  have b: "getDeduplicationKey long_event_a \<notin> recentNotifications example_manager"
    by (simp add: example_manager_def)
  have same: "getDeduplicationKey long_event_b = getDeduplicationKey long_event_a"
    by (simp add: getDeduplicationKey_def long_event_a_def long_event_b_def example_event_def)
  have seen: "getDeduplicationKey long_event_b \<in> recentNotifications after_long_event_a"
    unfolding after_long_event_a_def processMessage_records [OF a b] same by simp
  then have first: "snd (processMessage example_host after_long_event_a long_event_b
                           example_client) = Fulfilled None"
    by (rule processMessage_seen)
  from seen processMessage_keeps [of example_host after_long_event_a long_event_b example_client]
  have "getDeduplicationKey long_event_b
          \<in> recentNotifications (fst (processMessage example_host after_long_event_a
                                         long_event_b example_client))"
    by blast
  then have "snd (processMessage example_host
        (fst (processMessage example_host after_long_event_a long_event_b example_client))
        long_event_b example_client) = Fulfilled None"
    by (rule processMessage_seen)
  with ne pass first show ?thesis by simp
qed

text \<open>
  C6, as the code has it. \<open>shouldNotify\<close> never reads \<open>filters.channels\<close>: whatever the
  whitelist and the blacklist are, present or not, its result and its log lines are the same,
  decided by \<open>onlyWhenAway\<close>, the presence, \<open>highlights\<close> and the event's highlight flag.
\<close>

theorem shouldNotify_ignores_channels:
  "shouldNotify (cfg\<lparr>filters := (filters cfg)\<lparr>channels := ch\<rparr>\<rparr>) md c = shouldNotify cfg md c"
  by (simp add: shouldNotify_def Let_def)

text \<open>
  C6 as stated fails: with \<open>#test\<close> on the blacklist and a whitelist that does not list
  it, a highlight in \<open>#test\<close> is notified.
\<close>

theorem shouldNotify_blacklist_counterexample:
  "channels (filters blacklist_config)
     = Some \<lparr>whitelist = [''#allowed''], blacklist = [''#test'']\<rparr>
   \<and> md_channel example_event \<in> set [''#test'']
   \<and> md_channel example_event \<notin> set [''#allowed'']
   \<and> fst (shouldNotify blacklist_config example_event example_client) = True"
  by (simp add: shouldNotify_def blacklist_config_def example_config_def example_event_def
      example_client_def)

section \<open>Properties of the base notifier\<close>

lemma validate_loop_find:
  "validate_loop cfg vars = (find (field_fails cfg) vars = None)"
  by (induction vars) (auto simp add: field_fails_def Let_def split: if_splits)

lemma validateWithLogging_loop_find:
  "validateWithLogging_loop nm cfg vars =
     (case find (field_fails cfg) vars of
        None \<Rightarrow> (True, [])
      | Some (key, v) \<Rightarrow> (False, [(LError, validationError_or_default nm key v)]))"
  by (induction vars) (auto simp add: field_fails_def Let_def split: if_splits)

text \<open>
  C10. \<open>validate()\<close> and \<open>validateWithLogging()\<close> return the same boolean. Both go
  through the fields in declaration order and return false exactly when there is a failing
  field, stopping at the first one; they differ only in the log: \<open>validateWithLogging\<close>
  reports the message of that first failing field, which is its \<open>validationError\<close> when it
  has one (as every normalized field has), and logs nothing when no field fails.
\<close>

theorem validate_validateWithLogging:
  "fst (validateWithLogging n) = validate n
   \<and> validate n = (find (field_fails (serviceConfig n)) (registerVariables n) = None)
   \<and> snd (validateWithLogging n) =
       (case find (field_fails (serviceConfig n)) (registerVariables n) of
          None \<Rightarrow> []
        | Some (key, v) \<Rightarrow> [(LError, validationError_or_default (name n) key v)])
   \<and> (\<forall>key v e. find (field_fails (serviceConfig n)) (registerVariables n) = Some (key, v)
          \<and> v_validationError v = Some e \<and> e \<noteq> []
        \<longrightarrow> snd (validateWithLogging n) = [(LError, e)])"
  by (auto simp add: validate_def validateWithLogging_def validate_loop_find
      validateWithLogging_loop_find validationError_or_default_def split: option.splits)

text \<open>
  The theorem at the base notifier configured with a user key only: the API token is the
  first failing field, and its \<open>validationError\<close> is the one line logged.
\<close>

theorem validate_validateWithLogging_witness:
  "find (field_fails (serviceConfig (BaseNotifier [(''userKey'', JStr ''abc'')])))
        (registerVariables (BaseNotifier [(''userKey'', JStr ''abc'')]))
     = Some (''apiToken'', apiToken_variable)
   \<and> v_validationError apiToken_variable = Some ''API token must be a non-empty string''
   \<and> validate (BaseNotifier [(''userKey'', JStr ''abc'')]) = False
   \<and> validateWithLogging (BaseNotifier [(''userKey'', JStr ''abc'')])
       = (False, [(LError, ''API token must be a non-empty string'')])"
proof -
  let ?n = "BaseNotifier [(''userKey'', JStr ''abc'')]"
  have f: "find (field_fails (serviceConfig ?n)) (registerVariables ?n)
             = Some (''apiToken'', apiToken_variable)"
    by (simp add: BaseNotifier_def field_fails_def get_prop_def is_required_def is_missing_def
        rejects_def nonempty_string_def userKey_variable_def apiToken_variable_def)
  have e: "v_validationError apiToken_variable = Some ''API token must be a non-empty string''"
    by (simp add: apiToken_variable_def)
  note t = validate_validateWithLogging [of ?n]
  from t f have v: "validate ?n = False" by simp
  from t f e have s: "snd (validateWithLogging ?n)
                        = [(LError, ''API token must be a non-empty string'')]"
    by blast
  from t v have "fst (validateWithLogging ?n) = False" by simp
  with s have "validateWithLogging ?n
                 = (False, [(LError, ''API token must be a non-empty string'')])"
    by (simp add: prod_eq_iff)
  with f e v show ?thesis by simp
qed

lemma normalize_variable_normal_form: "normalize_variable key v = normal_form key v"
  by (cases v) (auto simp add: normalize_variable_def normal_form_def Let_def split: option.splits)

lemma normal_form_idem: "normal_form key (normal_form key v) = normal_form key v"
  by (simp add: normal_form_def split: option.splits)

text \<open>
  C7, as the code has it. The setter gives every field \<open>required\<close> (false when absent),
  \<open>validationError\<close> (\<open>Invalid value for <field>\<close> when absent) and \<open>validate\<close>
  (always true when absent); it sets \<open>example\<close> to the default when \<open>example\<close> is absent
  and \<open>default\<close> present, and leaves \<open>default\<close> as declared, so a field declared without
  \<open>default\<close> has none afterwards, and none of \<open>example\<close> either unless declared. The
  normalization is idempotent.
\<close>

theorem set_registerVariables_normal_form:
  "set_registerVariables raw = map (\<lambda>(key, v). (key, normal_form key v)) raw
   \<and> set_registerVariables (set_registerVariables raw) = set_registerVariables raw"
  by (induction raw) (auto simp add: set_registerVariables_def normalize_variable_normal_form normal_form_idem)

text \<open>
  C7 as stated fails: a field declared without \<open>default\<close> and \<open>example\<close> has neither
  after normalization, so not all five attributes.
\<close>

theorem set_registerVariables_counterexample:
  "map (\<lambda>(key, v). (key, v_default v, v_example v))
       (set_registerVariables [(''topic'', bare_variable)])
     = [(''topic'', None, None)]"
  by (simp add: set_registerVariables_def normalize_variable_def bare_variable_def)

section \<open>Properties of handleConfig\<close>

lemma get_prop_set_prop:
  "get_prop (set_prop obj k v) k' = (if k' = k then v else get_prop obj k')"
  by (simp add: get_prop_def set_prop_def update_conv')

lemma map_of_set_prop:
  "map_of (set_prop obj k v) k' = (if k' = k then Some v else map_of obj k')"
  by (simp add: set_prop_def update_conv')

lemma validate_loop_set_prop_undeclared:
  "k \<notin> fst ` set vars \<Longrightarrow> validate_loop (set_prop obj k v) vars = validate_loop obj vars"
proof -
  assume undeclared: "k \<notin> fst ` set vars"
  have "find (field_fails (set_prop obj k v)) vars = find (field_fails obj) vars"
  proof (rule find_cong)
    show "vars = vars" by simp
  next
    fix kv
    assume "kv \<in> set vars"
    with undeclared have "fst kv \<noteq> k" by auto
    then show "field_fails (set_prop obj k v) kv = field_fails obj kv"
      by (simp add: field_fails_def get_prop_set_prop)
  qed
  then show ?thesis by (simp add: validate_loop_find)
qed

lemma init_services_entry:
  "\<exists>before. map_of (init_services n cfg) (name n) = Some before"
  by (auto simp add: init_services_def Let_def update_conv' split: option.splits)

lemma init_services_existing:
  "service_entry n cfg = Some svc \<Longrightarrow> cfg\<lparr>services := Some (init_services n cfg)\<rparr> = cfg"
  by (auto simp add: service_entry_def init_services_def Let_def split: option.splits)

lemma find_key_Some:
  "find_key h vars setting = Some (k, v) \<Longrightarrow>
     (k, v) \<in> set vars \<and> toLowerCase h k = toLowerCase h setting"
  by (auto simp add: find_key_def find_Some_iff in_set_conv_nth)

lemma find_key_None:
  "find_key h vars setting = None \<longleftrightarrow> (\<forall>(k, v) \<in> set vars. toLowerCase h k \<noteq> toLowerCase h setting)"
  by (auto simp add: find_key_def find_None_iff)

lemma find_key_distinct:
  assumes "distinct (map (\<lambda>(k, v). toLowerCase h k) vars)"
    and "(key, v) \<in> set vars"
    and "toLowerCase h setting = toLowerCase h key"
  shows "find_key h vars setting = Some (key, v)"
  using assms
proof (induction vars)
  case Nil
  then show ?case by simp
next
  case (Cons a vars)
  show ?case
  proof (cases "a = (key, v)")
    case True
    with Cons.prems(3) show ?thesis by (simp add: find_key_def)
  next
    case False
    with Cons.prems(2) have mem: "(key, v) \<in> set vars" by simp
    from Cons.prems(1) have notin: "toLowerCase h (fst a) \<notin> (\<lambda>p. toLowerCase h (fst p)) ` set vars"
      by (simp add: case_prod_beta)
    have "toLowerCase h key \<in> (\<lambda>p. toLowerCase h (fst p)) ` set vars"
      using image_eqI [of "toLowerCase h key" "\<lambda>p. toLowerCase h (fst p)" "(key, v)" "set vars"] mem
      by simp
    with notin have "toLowerCase h (fst a) \<noteq> toLowerCase h key"
      by metis
    with Cons.prems(3) have ne: "toLowerCase h (fst a) \<noteq> toLowerCase h setting"
      by simp
    from Cons.prems(1) have "distinct (map (\<lambda>(k, v). toLowerCase h k) vars)" by simp
    from Cons.IH [OF this mem Cons.prems(3)] ne show ?thesis
      by (simp add: find_key_def case_prod_beta)
  qed
qed

text \<open>What a successful call does, step by step.\<close>

lemma handleConfig_resolved:
  assumes "find_key h (registerVariables n) setting = Some (key, v)"
    and "key \<noteq> []"
    and "parse_value h fm v setting value = Inr parsed"
    and "\<not> rejects v parsed"
    and "map_of (init_services n cfg) (name n) = Some before"
  shows "handleConfig h fm n cfg setting value =
     (let svc1 = set_prop before key parsed;
          auto = (\<not> truthy (get_prop svc1 ''enabled'') \<and> validate (n\<lparr>serviceConfig := svc1\<rparr>));
          svc2 = (if auto then set_prop svc1 ''enabled'' (JBool True) else svc1)
      in (cfg\<lparr>services := Some (AList.update (name n) svc2 (init_services n cfg))\<rparr>,
          \<lparr>success = True,
           messages = (if auto
              then [F_SUCCESS fm (name n @ '' setting '' @ C_CYAN fm @ key @ C_RESET fm @ '' updated''),
                    F_SUCCESS fm (name n @ '' service auto-enabled (all required fields are set)'')]
              else [F_SUCCESS fm (name n @ '' setting '' @ C_CYAN fm @ key @ C_RESET fm @ '' updated'')]),
           autoEnabled = Some auto\<rparr>))"
  using assms by (simp add: handleConfig_def Let_def)

lemma handleConfig_success_cases:
  assumes "success (snd (handleConfig h fm n cfg setting value))"
  obtains key v parsed where "find_key h (registerVariables n) setting = Some (key, v)"
    and "key \<noteq> []" and "parse_value h fm v setting value = Inr parsed" and "\<not> rejects v parsed"
  using assms
  by (auto simp add: handleConfig_def Let_def unknown_setting_def failure_def
      split: option.splits prod.splits if_splits sum.splits)

text \<open>
  C9. After a successful field mutation by \<open>handleConfig\<close> (\<open>enabled\<close> being reserved, not
  a declared field): if the service configuration was not enabled and, updated, passes the
  full validation, \<open>handleConfig\<close> sets \<open>enabled\<close> to true and returns \<open>autoEnabled\<close>
  true; if it was already enabled or still fails validation, \<open>autoEnabled\<close> is false and
  the \<open>enabled\<close> flag is as it was. (\<open>before\<close> is the notifier's service configuration
  as the call finds it, initialised with the defaults when the document has none, and
  \<open>after\<close> the one it leaves.)
\<close>

theorem handleConfig_auto_enable:
  assumes "success (snd (handleConfig h fm n cfg setting value))"
    and "''enabled'' \<notin> fst ` set (registerVariables n)"
  shows "\<exists>before after.
           map_of (init_services n cfg) (name n) = Some before
         \<and> service_entry n (fst (handleConfig h fm n cfg setting value)) = Some after
         \<and> autoEnabled (snd (handleConfig h fm n cfg setting value))
             = Some (\<not> truthy (get_prop before ''enabled'')
                     \<and> validate (n\<lparr>serviceConfig := after\<rparr>))
         \<and> (autoEnabled (snd (handleConfig h fm n cfg setting value)) = Some True
              \<longrightarrow> get_prop after ''enabled'' = JBool True)
         \<and> (autoEnabled (snd (handleConfig h fm n cfg setting value)) = Some False
              \<longrightarrow> get_prop after ''enabled'' = get_prop before ''enabled'')"
proof -
  from assms(1) obtain key v parsed
    where fk: "find_key h (registerVariables n) setting = Some (key, v)"
      and ne: "key \<noteq> []"
      and pv: "parse_value h fm v setting value = Inr parsed"
      and ok: "\<not> rejects v parsed"
    by (rule handleConfig_success_cases)
  obtain before where b: "map_of (init_services n cfg) (name n) = Some before"
    using init_services_entry by blast
  from fk have "(key, v) \<in> set (registerVariables n)"
    by (simp add: find_key_Some)
  with assms(2) have kne: "key \<noteq> ''enabled''" by force
  define svc1 where "svc1 = set_prop before key parsed"
  define auto where "auto = (\<not> truthy (get_prop svc1 ''enabled'')
                               \<and> validate (n\<lparr>serviceConfig := svc1\<rparr>))"
  define svc2 where "svc2 = (if auto then set_prop svc1 ''enabled'' (JBool True) else svc1)"
  have res: "fst (handleConfig h fm n cfg setting value)
               = cfg\<lparr>services := Some (AList.update (name n) svc2 (init_services n cfg))\<rparr>"
    and au: "autoEnabled (snd (handleConfig h fm n cfg setting value)) = Some auto"
    unfolding handleConfig_resolved [OF fk ne pv ok b] svc1_def auto_def svc2_def
    by (simp_all add: Let_def)
  have entry: "service_entry n (fst (handleConfig h fm n cfg setting value)) = Some svc2"
    by (simp add: res service_entry_def update_conv')
  have en1: "get_prop svc1 ''enabled'' = get_prop before ''enabled''"
    using kne by (simp add: svc1_def get_prop_set_prop)
  have val: "validate (n\<lparr>serviceConfig := svc2\<rparr>) = validate (n\<lparr>serviceConfig := svc1\<rparr>)"
    using assms(2) by (simp add: svc2_def validate_def validate_loop_set_prop_undeclared)
  have en2: "get_prop svc2 ''enabled'' = (if auto then JBool True else get_prop before ''enabled'')"
    by (simp add: svc2_def get_prop_set_prop en1)
  have "autoEnabled (snd (handleConfig h fm n cfg setting value))
          = Some (\<not> truthy (get_prop before ''enabled'') \<and> validate (n\<lparr>serviceConfig := svc2\<rparr>))"
    by (simp add: au auto_def en1 val)
  moreover have "autoEnabled (snd (handleConfig h fm n cfg setting value)) = Some True
                   \<longrightarrow> get_prop svc2 ''enabled'' = JBool True"
    by (simp add: au en2)
  moreover have "autoEnabled (snd (handleConfig h fm n cfg setting value)) = Some False
                   \<longrightarrow> get_prop svc2 ''enabled'' = get_prop before ''enabled''"
    by (simp add: au en2)
  ultimately show ?thesis using b entry by blast
qed

lemma eval_half:
  "handleConfig example_host example_format (BaseNotifier []) half_configured ''APITOKEN'' ''xyz''
     = (half_configured\<lparr>services := Some [(''BaseNotifier'',
          [(''enabled'', JBool True), (''userKey'', JStr ''abc''), (''apiToken'', JStr ''xyz'')])]\<rparr>,
        \<lparr>success = True,
         messages = [''OK: BaseNotifier setting <cyan>apiToken<reset> updated'',
                     ''OK: BaseNotifier service auto-enabled (all required fields are set)''],
         autoEnabled = Some True\<rparr>)"
  by (simp add: handleConfig_def init_services_def find_key_def example_host_def ascii_toLowerCase_def lower_char_def
      parse_value_def attr_def rejects_def validate_def get_prop_def set_prop_def
      is_required_def is_missing_def nonempty_string_def
      BaseNotifier_def userKey_variable_def apiToken_variable_def half_configured_def
      example_config_def example_format_def Let_def)

text \<open>
  The theorem at the base notifier with its user key set: setting \<open>APITOKEN\<close> completes
  the configuration, which is auto-enabled.
\<close>

theorem handleConfig_auto_enable_witness:
  "success (snd (handleConfig example_host example_format (BaseNotifier []) half_configured
                   ''APITOKEN'' ''xyz''))
   \<and> ''enabled'' \<notin> fst ` set (registerVariables (BaseNotifier []))
   \<and> autoEnabled (snd (handleConfig example_host example_format (BaseNotifier [])
                          half_configured ''APITOKEN'' ''xyz'')) = Some True
   \<and> (\<exists>after. service_entry (BaseNotifier [])
                  (fst (handleConfig example_host example_format (BaseNotifier [])
                          half_configured ''APITOKEN'' ''xyz'')) = Some after
          \<and> get_prop after ''enabled'' = JBool True)"
proof -
  let ?hc = "handleConfig example_host example_format (BaseNotifier []) half_configured
               ''APITOKEN'' ''xyz''"
  have a: "success (snd ?hc)" by (simp add: eval_half)
  have b: "''enabled'' \<notin> fst ` set (registerVariables (BaseNotifier []))"
    by (simp add: BaseNotifier_def)
  have c: "autoEnabled (snd ?hc) = Some True" by (simp add: eval_half)
  from handleConfig_auto_enable [OF a b] obtain before after
    where "service_entry (BaseNotifier []) (fst ?hc) = Some after"
      and "autoEnabled (snd ?hc) = Some True \<longrightarrow> get_prop after ''enabled'' = JBool True"
    by blast
  with a b c show ?thesis by blast
qed

text \<open>
  C8, as the code has it. Where the declared names are distinct when compared without case
  and are not empty (and \<open>enabled\<close> is not one of them), a setting name that equals a
  declared name up to case is resolved to that declared key: when its parsed value passes the
  field's validator the call succeeds and stores the value under the declared key; every
  other key of the service configuration, \<open>enabled\<close> apart, is as before, so none is
  created under the submitted casing. A setting name that matches no declared field gets the
  unsuccessful \<open>Unknown setting\<close> result listing the declared names; the document keeps
  all its values: it is unchanged when it has an entry for the notifier, and otherwise the
  one change is that the missing entry is initialised with the default service configuration.
\<close>

theorem handleConfig_setting_name:
  "(distinct (map (\<lambda>(k, v). toLowerCase h k) (registerVariables n))
      \<and> (key, v) \<in> set (registerVariables n) \<and> key \<noteq> []
      \<and> ''enabled'' \<notin> fst ` set (registerVariables n)
      \<and> toLowerCase h setting = toLowerCase h key
      \<and> parse_value h fm v setting value = Inr parsed \<and> \<not> rejects v parsed
    \<longrightarrow> success (snd (handleConfig h fm n cfg setting value))
        \<and> (\<exists>before after.
              map_of (init_services n cfg) (name n) = Some before
            \<and> service_entry n (fst (handleConfig h fm n cfg setting value)) = Some after
            \<and> map_of after key = Some parsed
            \<and> (\<forall>k. k \<noteq> key \<and> k \<noteq> ''enabled'' \<longrightarrow> map_of after k = map_of before k)))
   \<and> ((\<forall>(k, v) \<in> set (registerVariables n). toLowerCase h k \<noteq> toLowerCase h setting)
    \<longrightarrow> snd (handleConfig h fm n cfg setting value)
          = \<lparr>success = False,
             messages =
               [F_ERROR fm (''Unknown '' @ name n @ '' setting: '' @ C_ORANGE fm @ setting
                              @ C_RESET fm),
                F_INDENT fm 1 @ ''Valid settings: '' @ C_CYAN fm
                  @ join '', '' (map fst (registerVariables n)) @ C_RESET fm],
             autoEnabled = None\<rparr>
        \<and> fst (handleConfig h fm n cfg setting value)
            = cfg\<lparr>services := Some (init_services n cfg)\<rparr>
        \<and> (service_entry n cfg \<noteq> None \<longrightarrow> fst (handleConfig h fm n cfg setting value) = cfg))"
proof (intro conjI impI)
  assume "\<forall>(k, v) \<in> set (registerVariables n). toLowerCase h k \<noteq> toLowerCase h setting"
  then have none: "find_key h (registerVariables n) setting = None"
    by (simp add: find_key_None)
  then show "snd (handleConfig h fm n cfg setting value)
          = \<lparr>success = False,
             messages =
               [F_ERROR fm (''Unknown '' @ name n @ '' setting: '' @ C_ORANGE fm @ setting
                              @ C_RESET fm),
                F_INDENT fm 1 @ ''Valid settings: '' @ C_CYAN fm
                  @ join '', '' (map fst (registerVariables n)) @ C_RESET fm],
             autoEnabled = None\<rparr>"
    by (simp add: handleConfig_def unknown_setting_def Let_def)
  from none show unk: "fst (handleConfig h fm n cfg setting value)
                         = cfg\<lparr>services := Some (init_services n cfg)\<rparr>"
    by (simp add: handleConfig_def Let_def)
  assume "service_entry n cfg \<noteq> None"
  then obtain svc where "service_entry n cfg = Some svc" by blast
  then show "fst (handleConfig h fm n cfg setting value) = cfg"
    by (simp add: unk init_services_existing)
next
  assume asm: "distinct (map (\<lambda>(k, v). toLowerCase h k) (registerVariables n))
      \<and> (key, v) \<in> set (registerVariables n) \<and> key \<noteq> []
      \<and> ''enabled'' \<notin> fst ` set (registerVariables n)
      \<and> toLowerCase h setting = toLowerCase h key
      \<and> parse_value h fm v setting value = Inr parsed \<and> \<not> rejects v parsed"
  then have fk: "find_key h (registerVariables n) setting = Some (key, v)"
    by (simp add: find_key_distinct)
  from asm have ne: "key \<noteq> []" and pv: "parse_value h fm v setting value = Inr parsed"
    and ok: "\<not> rejects v parsed" by simp_all
  from asm have kne: "key \<noteq> ''enabled''" by force
  obtain before where b: "map_of (init_services n cfg) (name n) = Some before"
    using init_services_entry by blast
  define svc1 where "svc1 = set_prop before key parsed"
  define auto where "auto = (\<not> truthy (get_prop svc1 ''enabled'')
                               \<and> validate (n\<lparr>serviceConfig := svc1\<rparr>))"
  define svc2 where "svc2 = (if auto then set_prop svc1 ''enabled'' (JBool True) else svc1)"
  have res: "fst (handleConfig h fm n cfg setting value)
               = cfg\<lparr>services := Some (AList.update (name n) svc2 (init_services n cfg))\<rparr>"
    and su: "success (snd (handleConfig h fm n cfg setting value))"
    unfolding handleConfig_resolved [OF fk ne pv ok b] svc1_def auto_def svc2_def
    by (simp_all add: Let_def)
  from su show "success (snd (handleConfig h fm n cfg setting value))" .
  have entry: "service_entry n (fst (handleConfig h fm n cfg setting value)) = Some svc2"
    by (simp add: res service_entry_def update_conv')
  have stored: "map_of svc2 key = Some parsed"
    using kne by (simp add: svc2_def svc1_def map_of_set_prop)
  have others: "\<forall>k. k \<noteq> key \<and> k \<noteq> ''enabled'' \<longrightarrow> map_of svc2 k = map_of before k"
    by (simp add: svc2_def svc1_def map_of_set_prop)
  from b entry stored others
  show "\<exists>before after.
              map_of (init_services n cfg) (name n) = Some before
            \<and> service_entry n (fst (handleConfig h fm n cfg setting value)) = Some after
            \<and> map_of after key = Some parsed
            \<and> (\<forall>k. k \<noteq> key \<and> k \<noteq> ''enabled'' \<longrightarrow> map_of after k = map_of before k)"
    by blast
qed

lemma eval_upper:
  "handleConfig example_host example_format (BaseNotifier []) example_config ''USERKEY'' ''abc''
     = (example_config\<lparr>services := Some [(''BaseNotifier'',
          [(''enabled'', JBool False), (''userKey'', JStr ''abc''), (''apiToken'', JStr [])])]\<rparr>,
        \<lparr>success = True,
         messages = [''OK: BaseNotifier setting <cyan>userKey<reset> updated''],
         autoEnabled = Some False\<rparr>)"
  by (simp add: handleConfig_def init_services_def defaultServiceConfig_def default_value_def
      find_key_def example_host_def ascii_toLowerCase_def lower_char_def
      parse_value_def attr_def rejects_def validate_def get_prop_def set_prop_def
      is_required_def is_missing_def nonempty_string_def
      BaseNotifier_def userKey_variable_def apiToken_variable_def
      example_config_def example_format_def Let_def)

lemma eval_unknown:
  "handleConfig example_host example_format (BaseNotifier []) example_config ''invalidkey'' ''value''
     = (example_config\<lparr>services := Some [(''BaseNotifier'',
          [(''enabled'', JBool False), (''userKey'', JStr []), (''apiToken'', JStr [])])]\<rparr>,
        \<lparr>success = False,
         messages = [''ERROR: Unknown BaseNotifier setting: <orange>invalidkey<reset>'',
                     ''  Valid settings: <cyan>userKey, apiToken<reset>''],
         autoEnabled = None\<rparr>)"
  by (simp add: handleConfig_def init_services_def defaultServiceConfig_def default_value_def
      find_key_def example_host_def ascii_toLowerCase_def lower_char_def unknown_setting_def
      attr_def get_prop_def set_prop_def
      BaseNotifier_def userKey_variable_def apiToken_variable_def
      example_config_def example_format_def Let_def)

lemma eval_colliding:
  "handleConfig example_host example_format colliding_notifier example_config ''userkey'' ''abc''
     = (example_config\<lparr>services := Some [(''BaseNotifier'',
          [(''enabled'', JBool False), (''userKey'', JStr ''abc''), (''userkey'', JStr [])])]\<rparr>,
        \<lparr>success = True,
         messages = [''OK: BaseNotifier setting <cyan>userKey<reset> updated''],
         autoEnabled = Some False\<rparr>)"
  by (simp add: handleConfig_def init_services_def defaultServiceConfig_def default_value_def
      find_key_def example_host_def ascii_toLowerCase_def lower_char_def colliding_notifier_def
      parse_value_def attr_def rejects_def validate_def get_prop_def set_prop_def
      is_required_def is_missing_def nonempty_string_def
      BaseNotifier_def userKey_variable_def apiToken_variable_def
      example_config_def example_format_def Let_def)

text \<open>
  The theorem at the base notifier: \<open>USERKEY\<close> is stored under \<open>userKey\<close>, and an
  unknown name leaves a document that has the notifier's entry as it is.
\<close>

theorem handleConfig_setting_name_witness:
  "service_entry (BaseNotifier [])
      (fst (handleConfig example_host example_format (BaseNotifier []) example_config
              ''USERKEY'' ''abc''))
     = Some [(''enabled'', JBool False), (''userKey'', JStr ''abc''), (''apiToken'', JStr [])]
   \<and> snd (handleConfig example_host example_format (BaseNotifier []) half_configured
              ''invalidkey'' ''value'')
       = \<lparr>success = False,
          messages = [''ERROR: Unknown BaseNotifier setting: <orange>invalidkey<reset>'',
                      ''  Valid settings: <cyan>userKey, apiToken<reset>''],
          autoEnabled = None\<rparr>
   \<and> fst (handleConfig example_host example_format (BaseNotifier []) half_configured
              ''invalidkey'' ''value'') = half_configured"
proof -
  let ?n = "BaseNotifier []"
  note t = handleConfig_setting_name [of example_host ?n "''userKey''" userKey_variable
      "''USERKEY''" example_format "''abc''" "JStr ''abc''" example_config]
  note u = handleConfig_setting_name [of example_host ?n _ _ "''invalidkey''" example_format
      _ _ half_configured]
  have d: "distinct (map (\<lambda>(k, v). toLowerCase example_host k) (registerVariables ?n))"
    by (simp add: BaseNotifier_def example_host_def ascii_toLowerCase_def lower_char_def)
  have m: "(''userKey'', userKey_variable) \<in> set (registerVariables ?n)"
    by (simp add: BaseNotifier_def)
  have e: "''enabled'' \<notin> fst ` set (registerVariables ?n)"
    by (simp add: BaseNotifier_def)
  have l: "toLowerCase example_host ''USERKEY'' = toLowerCase example_host ''userKey''"
    by (simp add: example_host_def ascii_toLowerCase_def lower_char_def)
  have p: "parse_value example_host example_format userKey_variable ''USERKEY'' ''abc''
             = Inr (JStr ''abc'')"
    by (simp add: parse_value_def userKey_variable_def attr_def)
  have r: "\<not> rejects userKey_variable (JStr ''abc'')"
    by (simp add: rejects_def userKey_variable_def nonempty_string_def)
  from t d m e l p r obtain before after
    where b: "map_of (init_services ?n example_config) (name ?n) = Some before"
      and a: "service_entry ?n (fst (handleConfig example_host example_format ?n example_config
                                       ''USERKEY'' ''abc'')) = Some after"
      and s: "map_of after ''userKey'' = Some (JStr ''abc'')"
    by auto
  have first: "service_entry ?n (fst (handleConfig example_host example_format ?n example_config
              ''USERKEY'' ''abc''))
     = Some [(''enabled'', JBool False), (''userKey'', JStr ''abc''), (''apiToken'', JStr [])]"
    unfolding eval_upper by (simp add: service_entry_def BaseNotifier_def)
  have nomatch: "\<forall>(k, v) \<in> set (registerVariables ?n). toLowerCase example_host k \<noteq> toLowerCase example_host ''invalidkey''"
    by (simp add: BaseNotifier_def example_host_def ascii_toLowerCase_def lower_char_def)
  have present: "service_entry ?n half_configured \<noteq> None"
    by (simp add: service_entry_def half_configured_def BaseNotifier_def)
  from u nomatch present
  have "fst (handleConfig example_host example_format ?n half_configured
              ''invalidkey'' ''value'') = half_configured"
    and "snd (handleConfig example_host example_format ?n half_configured ''invalidkey'' ''value'')
          = \<lparr>success = False,
             messages =
               [F_ERROR example_format (''Unknown '' @ name ?n @ '' setting: ''
                    @ C_ORANGE example_format @ ''invalidkey'' @ C_RESET example_format),
                F_INDENT example_format 1 @ ''Valid settings: '' @ C_CYAN example_format
                  @ join '', '' (map fst (registerVariables ?n)) @ C_RESET example_format],
             autoEnabled = None\<rparr>"
    by blast+
  then show ?thesis using first
    by (simp add: BaseNotifier_def example_format_def)
qed

text \<open>
  C8 as stated fails twice. An unknown setting on a document without an entry for the
  notifier changes the document: the entry is created with the defaults. And with two
  declared names that differ by case only, the name \<open>userkey\<close>, itself a declared key, is
  resolved to the sibling \<open>userKey\<close>, which receives the value.
\<close>

theorem handleConfig_setting_name_counterexample:
  "service_entry (BaseNotifier []) example_config = None
   \<and> success (snd (handleConfig example_host example_format (BaseNotifier []) example_config
                     ''invalidkey'' ''value'')) = False
   \<and> service_entry (BaseNotifier [])
        (fst (handleConfig example_host example_format (BaseNotifier []) example_config
                ''invalidkey'' ''value''))
       = Some [(''enabled'', JBool False), (''userKey'', JStr []), (''apiToken'', JStr [])]
   \<and> map fst (registerVariables colliding_notifier) = [''userKey'', ''userkey'']
   \<and> service_entry colliding_notifier
        (fst (handleConfig example_host example_format colliding_notifier example_config
                ''userkey'' ''abc''))
       = Some [(''enabled'', JBool False), (''userKey'', JStr ''abc''), (''userkey'', JStr [])]"
proof -
  have "service_entry (BaseNotifier []) example_config = None"
    by (simp add: service_entry_def example_config_def)
  moreover have "success (snd (handleConfig example_host example_format (BaseNotifier [])
                     example_config ''invalidkey'' ''value'')) = False"
    unfolding eval_unknown by simp
  moreover have "service_entry (BaseNotifier [])
        (fst (handleConfig example_host example_format (BaseNotifier []) example_config
                ''invalidkey'' ''value''))
       = Some [(''enabled'', JBool False), (''userKey'', JStr []), (''apiToken'', JStr [])]"
    unfolding eval_unknown by (simp add: service_entry_def BaseNotifier_def)
  moreover have "map fst (registerVariables colliding_notifier) = [''userKey'', ''userkey'']"
    by (simp add: colliding_notifier_def)
  moreover have "service_entry colliding_notifier
        (fst (handleConfig example_host example_format colliding_notifier example_config
                ''userkey'' ''abc''))
       = Some [(''enabled'', JBool False), (''userKey'', JStr ''abc''), (''userkey'', JStr [])]"
    unfolding eval_colliding
    by (simp add: service_entry_def colliding_notifier_def BaseNotifier_def)
  ultimately show ?thesis by simp
qed

section \<open>Properties of the template engine\<close>

lemma plain_key_braces: "plain_key key \<Longrightarrow> CHR ''{'' \<notin> set key \<and> CHR ''}'' \<notin> set key"
  by (auto simp add: plain_key_def regex_special_def)

lemma expand_replacement_plain:
  "CHR ''$'' \<notin> set rep \<Longrightarrow> expand_replacement m b a rep = rep"
  by (induction m b a rep rule: expand_replacement.induct) auto

lemma replace_from_Nil: "replace_from pat rep before [] = []"
  by (simp add: replace_from.simps)

lemma placeholder_Cons: "placeholder key = CHR ''{'' # CHR ''{'' # key @ ''}}''"
  by (simp add: placeholder_def)

lemma replace_from_no_brace:
  "CHR ''{'' \<notin> set t \<Longrightarrow>
     replace_from (placeholder key) rep before (t @ rest)
       = t @ replace_from (placeholder key) rep (before @ t) rest"
proof (induction t arbitrary: before)
  case Nil
  then show ?case by simp
next
  case (Cons c t)
  then have c: "c \<noteq> CHR ''{''" and t: "CHR ''{'' \<notin> set t" by auto
  from c have "\<not> prefix (placeholder key) (c # t @ rest)"
    by (simp add: placeholder_Cons)
  with c have "replace_from (placeholder key) rep before ((c # t) @ rest)
               = c # replace_from (placeholder key) rep (before @ [c]) (t @ rest)"
    by (subst replace_from.simps) (simp add: placeholder_Cons)
  with Cons.IH [OF t, of "before @ [c]"] show ?case by simp
qed

lemma replace_from_match:
  "replace_from (placeholder key) rep before (placeholder key @ rest)
     = expand_replacement (placeholder key) before rest rep
       @ replace_from (placeholder key) rep (before @ placeholder key) rest"
  by (subst replace_from.simps) (simp add: placeholder_Cons)

lemma prefix_key_end:
  assumes "CHR ''}'' \<notin> set k" and "CHR ''}'' \<notin> set k'"
    and "prefix (k @ ''}}'') (k' @ ''}}'' @ rest)"
  shows "k = k'"
  using assms
proof (induction k arbitrary: k')
  case Nil
  then show ?case by (cases k') auto
next
  case (Cons c k)
  then show ?case by (cases k') auto
qed

lemma replace_from_other:
  assumes "plain_key key" and "plain_key key'" and "key \<noteq> key'"
  shows "replace_from (placeholder key) rep before (placeholder key' @ rest)
           = placeholder key'
             @ replace_from (placeholder key) rep (before @ placeholder key') rest"
proof -
  from assms(1,2) have b: "CHR ''}'' \<notin> set key" "CHR ''}'' \<notin> set key'" "CHR ''{'' \<notin> set key'"
    by (simp_all add: plain_key_braces)
  have n0: "\<not> prefix (placeholder key) (placeholder key' @ rest)"
  proof
    assume "prefix (placeholder key) (placeholder key' @ rest)"
    then have "prefix (key @ ''}}'') (key' @ ''}}'' @ rest)"
      by (simp add: placeholder_Cons)
    with b(1,2) have "key = key'" by (rule prefix_key_end)
    with assms(3) show False by simp
  qed
  have n1: "\<not> prefix (placeholder key) (CHR ''{'' # key' @ ''}}'' @ rest)"
    using b(3) by (cases key') (auto simp add: placeholder_Cons)
  have tail: "CHR ''{'' \<notin> set (key' @ ''}}'')" using b(3) by simp
  have "replace_from (placeholder key) rep before (placeholder key' @ rest)
          = CHR ''{'' # replace_from (placeholder key) rep (before @ ''{'')
                          (CHR ''{'' # key' @ ''}}'' @ rest)"
    using n0 by (subst replace_from.simps) (simp add: placeholder_Cons)
  also have "replace_from (placeholder key) rep (before @ ''{'') (CHR ''{'' # key' @ ''}}'' @ rest)
          = CHR ''{'' # replace_from (placeholder key) rep (before @ ''{{'')
                          ((key' @ ''}}'') @ rest)"
    using n1 by (subst replace_from.simps) (simp add: placeholder_Cons)
  also have "replace_from (placeholder key) rep (before @ ''{{'') ((key' @ ''}}'') @ rest)
          = (key' @ ''}}'') @ replace_from (placeholder key) rep
                                  ((before @ ''{{'') @ (key' @ ''}}'')) rest"
    using tail by (rule replace_from_no_brace)
  finally show ?thesis by (simp add: placeholder_Cons)
qed

lemma template_of_Nil: "template_of [] = []"
  by (simp add: template_of_def)

lemma template_of_Cons: "template_of (tok # toks) = token_text tok @ template_of toks"
  by (simp add: template_of_def)

lemma replace_from_tokens:
  assumes "\<forall>tok \<in> set toks. well_formed_token tok" and "plain_key key"
    and "CHR ''$'' \<notin> set rep"
  shows "replace_from (placeholder key) rep before (template_of toks)
           = template_of (map (substitute_one key rep) toks)"
  using assms(1)
proof (induction toks arbitrary: before)
  case Nil
  then show ?case by (simp add: template_of_def replace_from_Nil)
next
  case (Cons tok toks)
  then have rest: "\<And>b. replace_from (placeholder key) rep b (template_of toks)
                      = template_of (map (substitute_one key rep) toks)"
    by simp
  show ?case
  proof (cases tok)
    case (Lit t)
    with Cons.prems have "CHR ''{'' \<notin> set t" by simp
    then show ?thesis
      using rest Lit by (simp add: template_of_Cons replace_from_no_brace)
  next
    case (Var key')
    with Cons.prems have pk: "plain_key key'" by simp
    show ?thesis
    proof (cases "key' = key")
      case True
      then show ?thesis
        using rest Var assms(3)
        by (simp add: template_of_Cons replace_from_match expand_replacement_plain)
    next
      case False
      then have "key \<noteq> key'" by simp
      from replace_from_other [OF assms(2) pk this] show ?thesis
        using rest Var False
        by (simp add: template_of_Cons)
    qed
  qed
qed

lemma process_loop_Nil: "process_loop [] vars = []"
  by (induction vars) (auto simp add: replace_placeholder_def replace_from_Nil)

lemma rendered_Nil: "rendered [] toks = template_of toks"
proof -
  have "rendered_token [] tok = token_text tok" for tok
    by (cases tok) simp_all
  then have "rendered_token [] = token_text" by (rule ext)
  then show ?thesis by (simp add: rendered_def template_of_def)
qed

lemma rendered_Cons:
  "rendered vars (map (substitute_one key (value_or_empty v)) toks) = rendered ((key, v) # vars) toks"
proof -
  have "rendered_token vars (substitute_one key (value_or_empty v) tok)
          = rendered_token ((key, v) # vars) tok" for tok
    by (cases tok) simp_all
  then have "rendered_token vars \<circ> substitute_one key (value_or_empty v)
               = rendered_token ((key, v) # vars)"
    by (simp add: fun_eq_iff)
  then show ?thesis by (simp add: rendered_def)
qed

lemma process_loop_tokens:
  assumes "\<forall>tok \<in> set toks. well_formed_token tok"
    and "\<forall>(key, v) \<in> set vars. plain_key key \<and> plain_value v"
  shows "process_loop (template_of toks) vars = rendered vars toks"
  using assms
proof (induction vars arbitrary: toks)
  case Nil
  then show ?case by (simp add: rendered_Nil)
next
  case (Cons kv vars)
  obtain key v where kv: "kv = (key, v)" by (cases kv)
  with Cons.prems(2) have pk: "plain_key key"
    and pv: "CHR ''{'' \<notin> set (value_or_empty v)" "CHR ''$'' \<notin> set (value_or_empty v)"
    and rest: "\<forall>(key, v) \<in> set vars. plain_key key \<and> plain_value v"
    by (simp_all add: plain_value_def)
  let ?toks = "map (substitute_one key (value_or_empty v)) toks"
  have wf: "\<forall>tok \<in> set ?toks. well_formed_token tok"
  proof
    fix tok'
    assume "tok' \<in> set ?toks"
    then obtain tok where "tok \<in> set toks" and eq: "tok' = substitute_one key (value_or_empty v) tok"
      by auto
    with Cons.prems(1) have "well_formed_token tok" by simp
    with eq pv(1) show "well_formed_token tok'" by (cases tok) auto
  qed
  have "process_loop (template_of toks) (kv # vars)
          = process_loop (template_of ?toks) vars"
    using replace_from_tokens [OF Cons.prems(1) pk pv(2), of "[]"]
    by (simp add: kv replace_placeholder_def)
  also have "\<dots> = rendered vars ?toks"
    using wf rest by (rule Cons.IH)
  also have "\<dots> = rendered (kv # vars) toks"
    by (simp add: kv rendered_Cons)
  finally show ?case .
qed

text \<open>
  C5, as the code has it. For a template made of literal text without an opening brace and of
  placeholders, and a mapping whose keys have no character special in a regular expression
  and whose values have neither an opening brace nor a dollar sign, \<open>process\<close> replaces
  every occurrence of \<open>{{key}}\<close>, repeated ones included, for every key of the mapping by
  its value, a value that is undefined or null by the empty string; a placeholder whose key
  is missing from the mapping stays in the output as literal text.
\<close>

theorem process_placeholders:
  assumes "\<forall>tok \<in> set toks. well_formed_token tok"
    and "\<forall>(key, v) \<in> set vars. plain_key key \<and> plain_value v"
  shows "process (Some (template_of toks)) vars = rendered vars toks"
proof (cases "template_of toks = []")
  case True
  with process_loop_tokens [OF assms] have "rendered vars toks = []"
    by (simp add: process_loop_Nil)
  with True show ?thesis by (simp add: process_def)
next
  case False
  with process_loop_tokens [OF assms] show ?thesis by (simp add: process_def)
qed

text \<open>
  The theorem at \<open>{{a}}-{{a}} <{{b}}> {{c}}\<close> with \<open>a\<close> bound to \<open>x\<close> and \<open>c\<close> to an
  undefined value: both \<open>{{a}}\<close> are replaced, \<open>{{c}}\<close> becomes empty and \<open>{{b}}\<close>, not
  in the mapping, stays.
\<close>

theorem process_placeholders_witness:
  "template_of [Var ''a'', Lit ''-'', Var ''a'', Lit '' <'', Var ''b'', Lit ''> '', Var ''c'']
     = ''{{a}}-{{a}} <{{b}}> {{c}}''
   \<and> process (Some ''{{a}}-{{a}} <{{b}}> {{c}}'') [(''a'', Some ''x''), (''c'', None)]
       = ''x-x <{{b}}> ''"
proof -
  let ?toks = "[Var ''a'', Lit ''-'', Var ''a'', Lit '' <'', Var ''b'', Lit ''> '', Var ''c'']"
  let ?vars = "[(''a'', Some ''x''), (''c'', None)]"
  have a: "\<forall>tok \<in> set ?toks. well_formed_token tok"
    by (simp add: plain_key_def regex_special_def)
  have b: "\<forall>(key, v) \<in> set ?vars. plain_key key \<and> plain_value v"
    by (simp add: plain_key_def regex_special_def plain_value_def value_or_empty_def)
  have t: "template_of ?toks = ''{{a}}-{{a}} <{{b}}> {{c}}''"
    by (simp add: template_of_def placeholder_def)
  have r: "rendered ?vars ?toks = ''x-x <{{b}}> ''"
    by (simp add: rendered_def placeholder_def value_or_empty_def)
  from process_placeholders [OF a b] have
    "process (Some ''{{a}}-{{a}} <{{b}}> {{c}}'') ?vars = ''x-x <{{b}}> ''"
    unfolding t r .
  with t show ?thesis by simp
qed

text \<open>
  C5 as stated fails: the placeholder of a variable that is missing from the mapping is not
  rendered as the empty string, it is left in the output.
\<close>

theorem process_missing_variable_counterexample:
  "map_of [(''a'', Some ''x'')] ''b'' = None
   \<and> process (Some ''{{a}}-{{b}}'') [(''a'', Some ''x'')] = ''x-{{b}}''"
  by code_simp

text \<open>
  The example of the specification, and three inputs outside the scope of the theorem: a
  value with a replacement pattern, a value that holds a placeholder of a later key, and
  literal text that an empty value glues into a placeholder.
\<close>

lemma process_repeated: "process (Some ''{{a}}-{{a}}'') [(''a'', Some ''x'')] = ''x-x''"
  by code_simp

lemma process_replacement_pattern:
  "process (Some ''{{a}}'') [(''a'', Some ''$&'')] = ''{{a}}''"
  by code_simp

lemma process_value_with_placeholder:
  "process (Some ''{{a}}'') [(''a'', Some ''{{b}}''), (''b'', Some ''y'')] = ''y''"
  by code_simp

lemma process_glued_placeholder:
  "process (Some ''{{a{{b}}}}'') [(''b'', None), (''a'', Some ''x'')] = ''x''"
  by code_simp

end
